theory Spec2Isabelle
  imports Complex_Main "HOL-Library.Multiset"
begin

section \<open>Python values used by gaps\<close>

text \<open>
  The exceptions the modelled code can raise. A function that may raise returns
  \<open>error + 'a\<close>, with \<open>Inl\<close> for the exception.
\<close>

datatype error =
    ValueError
  | IndexError
  | KeyError
  | TypeError
  | ZeroDivisionError
  | NotImplementedError
  | BadParameter

text \<open>
  \<^verbatim>\<open>xs[i]\<close> on a Python list: a negative index counts from the end, and an index
  outside the list raises IndexError.
\<close>

definition index_py :: "'a list \<Rightarrow> int \<Rightarrow> error + 'a" where
  "index_py xs i =
     (if 0 \<le> i \<and> i < int (length xs) then Inr (xs ! nat i)
      else if i < 0 \<and> 0 \<le> i + int (length xs) then Inr (xs ! nat (i + int (length xs)))
      else Inl IndexError)"

text \<open>
  \<^verbatim>\<open>xs[s:e]\<close> on a Python list: each bound is shifted by the length when negative and
  clamped into the list; the slice is empty when the bounds cross.
\<close>

definition clamp_py :: "nat \<Rightarrow> int \<Rightarrow> nat" where
  "clamp_py n b = (if b < 0 then nat (max (b + int n) 0) else min (nat b) n)"

definition slice_py :: "'a list \<Rightarrow> int \<Rightarrow> int \<Rightarrow> 'a list" where
  "slice_py xs s e =
     take (clamp_py (length xs) e - clamp_py (length xs) s) (drop (clamp_py (length xs) s) xs)"

text \<open>\<^verbatim>\<open>range(n)\<close>: the integers from 0 up to \<open>n - 1\<close>, none when \<open>n \<le> 0\<close>.\<close>

definition range_py :: "int \<Rightarrow> int list" where
  "range_py n = [0..n - 1]"

section \<open>Python floats\<close>

text \<open>
  A Python float is an IEEE 754 double: a finite value, an infinity or a NaN. A finite
  value is given by the real number it stands for; the sign of a zero is not kept (the
  modelled code never observes it: a division by either zero raises).
\<close>

datatype pyfloat = Finite real | PInf | NInf | NaN

text \<open>Rounding a real to the nearest integer, a tie going to the even neighbour.\<close>

definition nearest_even :: "real \<Rightarrow> int" where
  "nearest_even y =
     (if y - of_int \<lfloor>y\<rfloor> < 1 / 2 then \<lfloor>y\<rfloor>
      else if 1 / 2 < y - of_int \<lfloor>y\<rfloor> then \<lfloor>y\<rfloor> + 1
      else if even \<lfloor>y\<rfloor> then \<lfloor>y\<rfloor> else \<lfloor>y\<rfloor> + 1)"

text \<open>
  The binary exponent of a positive real in double format: the integer part of \<open>log 2 x\<close>, but not below
  \<open>-1022\<close>, where the subnormal numbers begin. The doubles of exponent \<open>e\<close> are the
  multiples of \<open>2 powr (e - 52)\<close>.
\<close>

definition exponent :: "real \<Rightarrow> int" where
  "exponent x = max \<lfloor>log 2 x\<rfloor> (- 1022)"

definition round_pos :: "real \<Rightarrow> real" where
  "round_pos x =
     of_int (nearest_even (x / 2 powr of_int (exponent x - 52))) * 2 powr of_int (exponent x - 52)"

text \<open>
  The double nearest to a real (round to nearest, ties to even), the result of every
  arithmetic operation on finite doubles: a magnitude that rounds to \<open>2 ^ 1024\<close> or more
  overflows to an infinity, one of at most half the least subnormal underflows to zero.
\<close>

definition round_double :: "real \<Rightarrow> pyfloat" where
  "round_double x =
     (if x = 0 then Finite 0
      else if 0 < x then (if 2 ^ 1024 \<le> round_pos x then PInf else Finite (round_pos x))
      else (if 2 ^ 1024 \<le> round_pos (- x) then NInf else Finite (- round_pos (- x))))"

text \<open>\<^verbatim>\<open>a + b\<close> on floats.\<close>

fun fadd :: "pyfloat \<Rightarrow> pyfloat \<Rightarrow> pyfloat" where
  "fadd NaN b = NaN"
| "fadd a NaN = NaN"
| "fadd PInf NInf = NaN"
| "fadd NInf PInf = NaN"
| "fadd PInf b = PInf"
| "fadd a PInf = PInf"
| "fadd NInf b = NInf"
| "fadd a NInf = NInf"
| "fadd (Finite x) (Finite y) = round_double (x + y)"

text \<open>\<^verbatim>\<open>a * b\<close> on floats.\<close>

fun fmul :: "pyfloat \<Rightarrow> pyfloat \<Rightarrow> pyfloat" where
  "fmul NaN b = NaN"
| "fmul a NaN = NaN"
| "fmul (Finite x) (Finite y) = round_double (x * y)"
| "fmul (Finite x) PInf = (if x = 0 then NaN else if 0 < x then PInf else NInf)"
| "fmul (Finite x) NInf = (if x = 0 then NaN else if 0 < x then NInf else PInf)"
| "fmul PInf (Finite y) = (if y = 0 then NaN else if 0 < y then PInf else NInf)"
| "fmul NInf (Finite y) = (if y = 0 then NaN else if 0 < y then NInf else PInf)"
| "fmul PInf PInf = PInf"
| "fmul NInf NInf = PInf"
| "fmul PInf NInf = NInf"
| "fmul NInf PInf = NInf"

text \<open>
  \<^verbatim>\<open>a / b\<close> on floats: a zero divisor raises ZeroDivisionError, whatever the dividend.
\<close>

fun fdiv :: "pyfloat \<Rightarrow> pyfloat \<Rightarrow> error + pyfloat" where
  "fdiv a (Finite y) =
     (if y = 0 then Inl ZeroDivisionError
      else case a of
             Finite x \<Rightarrow> Inr (round_double (x / y))
           | PInf \<Rightarrow> Inr (if 0 < y then PInf else NInf)
           | NInf \<Rightarrow> Inr (if 0 < y then NInf else PInf)
           | NaN \<Rightarrow> Inr NaN)"
| "fdiv NaN b = Inr NaN"
| "fdiv a NaN = Inr NaN"
| "fdiv (Finite x) b = Inr (Finite 0)"
| "fdiv a b = Inr NaN"

text \<open>\<^verbatim>\<open>a <= b\<close> on floats: false whenever a NaN is compared.\<close>

fun pf_le :: "pyfloat \<Rightarrow> pyfloat \<Rightarrow> bool" where
  "pf_le NaN b = False"
| "pf_le a NaN = False"
| "pf_le NInf b = True"
| "pf_le a PInf = True"
| "pf_le (Finite x) (Finite y) = (x \<le> y)"
| "pf_le a b = False"

section \<open>individual.py\<close>

datatype FitnessType = Similarity | Semantic | Sum

text \<open>
  Python passes any object as \<^verbatim>\<open>fitness_type\<close>: a member of the enumeration, a value
  equal to the integer \<open>n\<close> (the members have the values 1, 2 and 3), or any other object.
\<close>

datatype py_value = Member FitnessType | IntValue int | OtherValue

text \<open>
  \<^verbatim>\<open>x in FitnessType\<close> is true for a member. For an object that is not a member the
  result depends on the interpreter: up to Python 3.7 the test is false; from 3.8 to 3.11
  the test raises TypeError; from 3.12 on the test is true for an object equal to the value
  of a member and false for any other. The repository does not fix the interpreter, so its
  behaviour is a parameter.
\<close>

datatype containment = ContainsFalse | ContainsRaises | ContainsByValue

definition enum_contains :: "containment \<Rightarrow> py_value \<Rightarrow> error + bool" where
  "enum_contains k v =
     (case v of
        Member t \<Rightarrow> Inr True
      | IntValue n \<Rightarrow>
          (case k of
             ContainsFalse \<Rightarrow> Inr False
           | ContainsRaises \<Rightarrow> Inl TypeError
           | ContainsByValue \<Rightarrow> Inr (n = 1 \<or> n = 2 \<or> n = 3))
      | OtherValue \<Rightarrow>
          (case k of
             ContainsFalse \<Rightarrow> Inr False
           | ContainsRaises \<Rightarrow> Inl TypeError
           | ContainsByValue \<Rightarrow> Inr False))"

text \<open>
  A piece carries \<^verbatim>\<open>id\<close>, \<^verbatim>\<open>image\<close> and \<^verbatim>\<open>size\<close>; the three names are taken in HOL, so the
  fields carry the suffix \<open>_piece\<close>. The pixel block is left abstract.
\<close>

record 'img Piece =
  id_piece :: int
  image_piece :: 'img
  size_piece :: int

text \<open>
  The attributes of an Individual. A leading underscore of the source is written as the
  prefix \<open>priv_\<close>. \<^verbatim>\<open>_fitness\<close> is \<^verbatim>\<open>None\<close> until the fitness has been computed;
  \<^verbatim>\<open>_piece_mapping\<close> is a dict from piece id to list index.
\<close>

record 'img Individual =
  pieces :: "'img Piece list"
  rows :: int
  columns :: int
  priv_fitness :: "pyfloat option"
  fitness_type :: py_value
  priv_piece_mapping :: "int \<rightharpoonup> int"

text \<open>
  \<^verbatim>\<open>FITNESS_FACTOR\<close> is the int 1000. It is used only as an operand of \<^verbatim>\<open>/\<close>, where
  Python converts it to the float 1000.0, exactly; \<^verbatim>\<open>1 / self.FITNESS_FACTOR\<close>, a
  division of two ints, is the correctly rounded quotient, as the float division of 1.0
  by 1000.0 is.
\<close>

definition FITNESS_FACTOR :: pyfloat where
  "FITNESS_FACTOR = Finite 1000"

subsection \<open>Construction\<close>

text \<open>
  \<^verbatim>\<open>np.random.shuffle\<close> on a list is the Fisher-Yates loop
  \<^verbatim>\<open>for i in reversed(range(1, n)): j = random_interval(i); x[i], x[j] = x[j], x[i]\<close>.
  The generator is outside the repository: \<open>rnd i\<close> is the raw draw made at position \<open>i\<close>,
  reduced into \<open>0..i\<close>.
\<close>

fun shuffle_from :: "(nat \<Rightarrow> nat) \<Rightarrow> nat \<Rightarrow> 'a list \<Rightarrow> 'a list" where
  "shuffle_from rnd 0 xs = xs"
| "shuffle_from rnd (Suc i) xs =
     shuffle_from rnd i
       (xs[Suc i := xs ! (rnd (Suc i) mod Suc (Suc i)),
           rnd (Suc i) mod Suc (Suc i) := xs ! Suc i])"

definition np_random_shuffle :: "(nat \<Rightarrow> nat) \<Rightarrow> 'a list \<Rightarrow> 'a list" where
  "np_random_shuffle rnd xs = shuffle_from rnd (length xs - 1) xs"

text \<open>
  The dict comprehension \<^verbatim>\<open>{piece.id: index for index, piece in enumerate(self.pieces)}\<close>:
  entries are stored in list order, a later entry replacing an earlier one with the same key.
\<close>

definition store_entry :: "(int \<rightharpoonup> int) \<Rightarrow> nat \<times> 'img Piece \<Rightarrow> (int \<rightharpoonup> int)" where
  "store_entry m e = m(id_piece (snd e) \<mapsto> int (fst e))"

definition build_piece_mapping :: "'img Piece list \<Rightarrow> (int \<rightharpoonup> int)" where
  "build_piece_mapping ps = foldl store_entry Map.empty (List.enumerate 0 ps)"

text \<open>
  \<^verbatim>\<open>Individual.__init__\<close> on an explicit store of list objects: the store is the list of
  all list objects, an address is a position in it. The caller's list lives at address \<open>a\<close>.
  \<^verbatim>\<open>pieces[:]\<close> allocates a new list object (at the next free address) holding the same
  elements; the shuffle writes to that object only. Then the containment test of the fitness
  type runs: an exception of the test ends the constructor, a false test raises ValueError,
  and otherwise the argument is stored as it is. The result is the final store, the address
  of the new list object, and the exception or the constructed Individual. \<open>k\<close> is the
  behaviour of the interpreter's containment test.
\<close>

definition Individual_init_store ::
  "containment \<Rightarrow> 'img Piece list list \<Rightarrow> nat \<Rightarrow> int \<Rightarrow> int \<Rightarrow> bool \<Rightarrow> py_value \<Rightarrow> (nat \<Rightarrow> nat)
    \<Rightarrow> 'img Piece list list \<times> nat \<times> (error + 'img Individual)" where
  "Individual_init_store k st a r c shuffle ft rnd =
     (let b = length st;
          st1 = st @ [st ! a];
          st2 = (if shuffle then st1[b := np_random_shuffle rnd (st1 ! b)] else st1)
      in (st2, b,
          case enum_contains k ft of
            Inl e \<Rightarrow> Inl e
          | Inr inside \<Rightarrow>
              if \<not> inside then Inl ValueError
              else Inr \<lparr>pieces = st2 ! b, rows = r, columns = c, priv_fitness = None,
                        fitness_type = ft,
                        priv_piece_mapping = build_piece_mapping (st2 ! b)\<rparr>))"

text \<open>The constructor as the caller sees it: called on a list value.\<close>

definition Individual_init ::
  "containment \<Rightarrow> 'img Piece list \<Rightarrow> int \<Rightarrow> int \<Rightarrow> bool \<Rightarrow> py_value \<Rightarrow> (nat \<Rightarrow> nat)
    \<Rightarrow> error + 'img Individual" where
  "Individual_init k ps r c shuffle ft rnd =
     snd (snd (Individual_init_store k [ps] 0 r c shuffle ft rnd))"

subsection \<open>Grid access\<close>

text \<open>\<^verbatim>\<open>__getitem__\<close>: row \<open>key\<close> of the grid, as a slice of the piece list.\<close>

definition getitem :: "'img Individual \<Rightarrow> int \<Rightarrow> 'img Piece list" where
  "getitem ind key = slice_py (pieces ind) (key * columns ind) ((key + 1) * columns ind)"

text \<open>\<^verbatim>\<open>self[i][j].id\<close>.\<close>

definition cell_id :: "'img Individual \<Rightarrow> int \<Rightarrow> int \<Rightarrow> error + int" where
  "cell_id ind i j =
     (case index_py (getitem ind i) j of Inl e \<Rightarrow> Inl e | Inr p \<Rightarrow> Inr (id_piece p))"

text \<open>\<^verbatim>\<open>piece_by_id\<close>: a missing key raises KeyError.\<close>

definition piece_by_id :: "'img Individual \<Rightarrow> int \<Rightarrow> error + 'img Piece" where
  "piece_by_id ind identifier =
     (case priv_piece_mapping ind identifier of
        None \<Rightarrow> Inl KeyError
      | Some k \<Rightarrow> index_py (pieces ind) k)"

text \<open>
  \<^verbatim>\<open>edge\<close>: the four tests run in the source's order. \<^verbatim>\<open>and\<close> evaluates its right operand
  only when the left one holds, so \<^verbatim>\<open>edge_index % self.columns\<close> is computed (and raises
  ZeroDivisionError for zero columns) only for the orientations "R" and "L". A call that
  passes every test returns \<^verbatim>\<open>None\<close>.
\<close>

definition id_at :: "'img Individual \<Rightarrow> int \<Rightarrow> error + int option" where
  "id_at ind k =
     (case index_py (pieces ind) k of Inl e \<Rightarrow> Inl e | Inr p \<Rightarrow> Inr (Some (id_piece p)))"

definition edge :: "'img Individual \<Rightarrow> int \<Rightarrow> string \<Rightarrow> error + int option" where
  "edge ind piece_id orientation =
     (case priv_piece_mapping ind piece_id of
        None \<Rightarrow> Inl KeyError
      | Some edge_index \<Rightarrow>
          if orientation = ''T'' \<and> edge_index \<ge> columns ind
            then id_at ind (edge_index - columns ind)
          else if orientation = ''R'' \<and> columns ind = 0
            then Inl ZeroDivisionError
          else if orientation = ''R'' \<and> edge_index mod columns ind < columns ind - 1
            then id_at ind (edge_index + 1)
          else if orientation = ''D'' \<and> edge_index < (rows ind - 1) * columns ind
            then id_at ind (edge_index + columns ind)
          else if orientation = ''L'' \<and> columns ind = 0
            then Inl ZeroDivisionError
          else if orientation = ''L'' \<and> edge_index mod columns ind > 0
            then id_at ind (edge_index - 1)
          else Inr None)"

subsection \<open>Fitness\<close>

text \<open>
  \<^verbatim>\<open>ImageAnalysis.get_dissimilarity(ids, orientation)\<close>, \<^verbatim>\<open>utils.assemble_image\<close> and
  \<^verbatim>\<open>compute_sem_consistency\<close> are defined outside the two source files. They are
  parameters of the model: \<open>gd\<close>, \<open>asm\<close> and \<open>sem\<close>; the measure and the scorer return
  floats.

  The two loops of \<^verbatim>\<open>_similarity\<close>, over the index pairs in the order the nested
  \<^verbatim>\<open>for\<close> statements visit them, adding to \<^verbatim>\<open>fitness_value\<close> in float arithmetic.
\<close>

fun add_rows :: "(int \<times> int \<Rightarrow> string \<Rightarrow> pyfloat) \<Rightarrow> 'img Individual \<Rightarrow> (int \<times> int) list \<Rightarrow> pyfloat
    \<Rightarrow> error + pyfloat" where
  "add_rows gd ind [] fitness_value = Inr fitness_value"
| "add_rows gd ind ((i, j) # rest) fitness_value =
     (case cell_id ind i j of
        Inl e \<Rightarrow> Inl e
      | Inr a \<Rightarrow>
          (case cell_id ind i (j + 1) of
             Inl e \<Rightarrow> Inl e
           | Inr b \<Rightarrow> add_rows gd ind rest (fadd fitness_value (gd (a, b) ''LR''))))"

fun add_columns :: "(int \<times> int \<Rightarrow> string \<Rightarrow> pyfloat) \<Rightarrow> 'img Individual \<Rightarrow> (int \<times> int) list \<Rightarrow> pyfloat
    \<Rightarrow> error + pyfloat" where
  "add_columns gd ind [] fitness_value = Inr fitness_value"
| "add_columns gd ind ((i, j) # rest) fitness_value =
     (case cell_id ind i j of
        Inl e \<Rightarrow> Inl e
      | Inr a \<Rightarrow>
          (case cell_id ind (i + 1) j of
             Inl e \<Rightarrow> Inl e
           | Inr b \<Rightarrow> add_columns gd ind rest (fadd fitness_value (gd (a, b) ''TD''))))"

definition priv_similarity :: "(int \<times> int \<Rightarrow> string \<Rightarrow> pyfloat) \<Rightarrow> 'img Individual \<Rightarrow> error + pyfloat" where
  "priv_similarity gd ind =
     (case fdiv (Finite 1) FITNESS_FACTOR of
        Inl e \<Rightarrow> Inl e
      | Inr start \<Rightarrow>
          (case add_rows gd ind
                  (List.product (range_py (rows ind)) (range_py (columns ind - 1))) start of
             Inl e \<Rightarrow> Inl e
           | Inr v \<Rightarrow>
               (case add_columns gd ind
                       (List.product (range_py (rows ind - 1)) (range_py (columns ind))) v of
                  Inl e \<Rightarrow> Inl e
                | Inr fitness_value \<Rightarrow> fdiv FITNESS_FACTOR fitness_value)))"

definition to_image :: "('img list \<Rightarrow> int \<Rightarrow> int \<Rightarrow> 'pix) \<Rightarrow> 'img Individual \<Rightarrow> 'pix" where
  "to_image asm ind = asm (map image_piece (pieces ind)) (rows ind) (columns ind)"

text \<open>\<^verbatim>\<open>_semantic_consistency\<close>: the score times the int 10, converted to 10.0.\<close>

definition priv_semantic_consistency ::
  "('img list \<Rightarrow> int \<Rightarrow> int \<Rightarrow> 'pix) \<Rightarrow> ('pix \<Rightarrow> int \<times> int \<Rightarrow> pyfloat) \<Rightarrow> 'img Individual \<Rightarrow> pyfloat" where
  "priv_semantic_consistency asm sem ind =
     fmul (sem (to_image asm ind) (rows ind, columns ind)) (Finite 10)"

text \<open>
  What the \<^verbatim>\<open>fitness\<close> property computes when \<^verbatim>\<open>_fitness\<close> is \<^verbatim>\<open>None\<close>: the dispatch on
  \<^verbatim>\<open>fitness_type\<close>, in the source's order. A stored value that is not a member, not even
  one equal to the value of a member, compares unequal to every member.
\<close>

definition compute_fitness ::
  "(int \<times> int \<Rightarrow> string \<Rightarrow> pyfloat) \<Rightarrow> ('img list \<Rightarrow> int \<Rightarrow> int \<Rightarrow> 'pix) \<Rightarrow> ('pix \<Rightarrow> int \<times> int \<Rightarrow> pyfloat)
    \<Rightarrow> 'img Individual \<Rightarrow> error + pyfloat" where
  "compute_fitness gd asm sem ind =
     (if fitness_type ind = Member Similarity then priv_similarity gd ind
      else if fitness_type ind = Member Semantic then Inr (priv_semantic_consistency asm sem ind)
      else if fitness_type ind = Member Sum then
        (case priv_similarity gd ind of
           Inl e \<Rightarrow> Inl e
         | Inr s \<Rightarrow> Inr (fadd s (priv_semantic_consistency asm sem ind)))
      else Inl NotImplementedError)"

text \<open>
  The \<^verbatim>\<open>fitness\<close> property: it reads \<^verbatim>\<open>_fitness\<close>, computes and stores the value when it
  is \<^verbatim>\<open>None\<close>, and returns the stored value. The result is the value and the Individual
  after the access; an exception leaves the Individual as it was.
\<close>

definition fitness ::
  "(int \<times> int \<Rightarrow> string \<Rightarrow> pyfloat) \<Rightarrow> ('img list \<Rightarrow> int \<Rightarrow> int \<Rightarrow> 'pix) \<Rightarrow> ('pix \<Rightarrow> int \<times> int \<Rightarrow> pyfloat)
    \<Rightarrow> 'img Individual \<Rightarrow> error + (pyfloat \<times> 'img Individual)" where
  "fitness gd asm sem ind =
     (case priv_fitness ind of
        Some v \<Rightarrow> Inr (v, ind)
      | None \<Rightarrow>
          (case compute_fitness gd asm sem ind of
             Inl e \<Rightarrow> Inl e
           | Inr v \<Rightarrow> Inr (v, ind\<lparr>priv_fitness := Some v\<rparr>)))"

section \<open>cli.py\<close>






section \<open>Reference notions\<close>

text \<open>
  Cell \<open>(i, j)\<close> of the row-major grid is position \<open>i * columns + j\<close> of the piece list. The
  dissimilarities of an arrangement: the left-right dissimilarity of every cell and its
  right neighbour, row by row, and the top-down dissimilarity of every cell and the cell
  below it, row by row.
\<close>

definition horizontal_dissimilarities ::
  "(int \<times> int \<Rightarrow> string \<Rightarrow> pyfloat) \<Rightarrow> 'img Individual \<Rightarrow> pyfloat list" where
  "horizontal_dissimilarities gd ind =
     map (\<lambda>(i, j). gd (id_piece (pieces ind ! (i * nat (columns ind) + j)),
                        id_piece (pieces ind ! (i * nat (columns ind) + j + 1))) ''LR'')
       (List.product [0..<nat (rows ind)] [0..<nat (columns ind) - 1])"

definition vertical_dissimilarities ::
  "(int \<times> int \<Rightarrow> string \<Rightarrow> pyfloat) \<Rightarrow> 'img Individual \<Rightarrow> pyfloat list" where
  "vertical_dissimilarities gd ind =
     map (\<lambda>(i, j). gd (id_piece (pieces ind ! (i * nat (columns ind) + j)),
                        id_piece (pieces ind ! ((i + 1) * nat (columns ind) + j))) ''TD'')
       (List.product [0..<nat (rows ind) - 1] [0..<nat (columns ind)])"

text \<open>
  The total dissimilarity of an arrangement as a number: the exact sum of its
  dissimilarities, all of them finite.
\<close>

fun real_of :: "pyfloat \<Rightarrow> real" where
  "real_of (Finite x) = x"
| "real_of a = 0"

definition total_dissimilarity :: "(int \<times> int \<Rightarrow> string \<Rightarrow> pyfloat) \<Rightarrow> 'img Individual \<Rightarrow> real" where
  "total_dissimilarity gd ind =
     sum_list (map real_of (horizontal_dissimilarities gd ind))
     + sum_list (map real_of (vertical_dissimilarities gd ind))"

text \<open>
  The sum as float arithmetic accumulates it: starting from the double nearest to
  \<open>1/1000\<close>, the dissimilarities are added one by one, each addition rounded.
\<close>

definition accumulated_dissimilarity ::
  "(int \<times> int \<Rightarrow> string \<Rightarrow> pyfloat) \<Rightarrow> 'img Individual \<Rightarrow> pyfloat" where
  "accumulated_dissimilarity gd ind =
     foldl fadd (foldl fadd (round_double (1 / 1000)) (horizontal_dissimilarities gd ind))
       (vertical_dissimilarities gd ind)"

text \<open>
  A well-formed Individual of the data model: a grid with at least one column, one piece
  per cell, pairwise distinct piece ids, and the id-to-index dict built from the piece list.
\<close>

definition well_formed :: "'img Individual \<Rightarrow> bool" where
  "well_formed ind =
     (0 < columns ind
      \<and> int (length (pieces ind)) = rows ind * columns ind
      \<and> distinct (map id_piece (pieces ind))
      \<and> priv_piece_mapping ind = build_piece_mapping (pieces ind))"

section \<open>Sample data\<close>

definition sample_piece :: "int \<Rightarrow> nat Piece" where
  "sample_piece n = \<lparr>id_piece = n, image_piece = 0, size_piece = 32\<rparr>"

definition sample_pieces :: "nat Piece list" where
  "sample_pieces = [sample_piece 7, sample_piece 3, sample_piece 9, sample_piece 5]"

definition three_pieces :: "nat Piece list" where
  "three_pieces = [sample_piece 7, sample_piece 3, sample_piece 9]"

fun sample_rnd :: "nat \<Rightarrow> nat" where
  "sample_rnd i = i * i"

definition sample_individual :: "nat Piece list \<Rightarrow> py_value \<Rightarrow> nat Individual" where
  "sample_individual ps ft =
     \<lparr>pieces = ps, rows = 2, columns = 2, priv_fitness = None,
      fitness_type = ft, priv_piece_mapping = build_piece_mapping ps\<rparr>"

text \<open>
  A puzzle of two pieces in one row, in both orders. The two dissimilarities are
  neighbouring doubles: \<open>0x1.8000000000004p+0\<close> for the pair in ascending order of ids and
  \<open>0x1.8000000000005p+0\<close> for the pair in descending order.
\<close>

definition pair_ascending :: "nat Piece list" where
  "pair_ascending = [sample_piece 1, sample_piece 2]"

definition pair_descending :: "nat Piece list" where
  "pair_descending = [sample_piece 2, sample_piece 1]"

definition pair_individual :: "nat Piece list \<Rightarrow> py_value \<Rightarrow> nat Individual" where
  "pair_individual ps ft =
     \<lparr>pieces = ps, rows = 1, columns = 2, priv_fitness = None,
      fitness_type = ft, priv_piece_mapping = build_piece_mapping ps\<rparr>"

fun sample_gd :: "int \<times> int \<Rightarrow> string \<Rightarrow> pyfloat" where
  "sample_gd (a, b) orientation =
     Finite (if a < b then 6755399441055748 / 2 ^ 52 else 6755399441055749 / 2 ^ 52)"

fun zero_gd :: "int \<times> int \<Rightarrow> string \<Rightarrow> pyfloat" where
  "zero_gd ids orientation = Finite 0"

fun sample_asm :: "nat list \<Rightarrow> int \<Rightarrow> int \<Rightarrow> nat" where
  "sample_asm imgs r c = length imgs"

fun sample_sem :: "nat \<Rightarrow> int \<times> int \<Rightarrow> pyfloat" where
  "sample_sem pix (r, c) = Finite (real pix / 4)"

section \<open>Rounding to the nearest double\<close>

lemma nearest_even_bounds: "\<lfloor>y\<rfloor> \<le> nearest_even y" "nearest_even y \<le> \<lfloor>y\<rfloor> + 1"
  by (simp_all add: nearest_even_def)

lemma nearest_even_of_int: "nearest_even (of_int n) = n"
  by (simp add: nearest_even_def)

lemma nearest_even_mono:
  assumes "x \<le> y"
  shows "nearest_even x \<le> nearest_even y"
proof (cases "\<lfloor>x\<rfloor> = \<lfloor>y\<rfloor>")
  case True
  then show ?thesis using assms by (auto simp: nearest_even_def)
next
  case False
  then have "\<lfloor>x\<rfloor> < \<lfloor>y\<rfloor>" using floor_mono[OF assms] by simp
  then show ?thesis using nearest_even_bounds(2)[of x] nearest_even_bounds(1)[of y] by linarith
qed

lemma exponent_eq:
  assumes "0 < x" "2 powr of_int e \<le> x" "x < 2 powr of_int (e + 1)" "- 1022 \<le> e"
  shows "exponent x = e"
proof -
  have "\<lfloor>log 2 x\<rfloor> = e" using assms(1-3) by (simp add: floor_log_eq_powr_iff)
  then show ?thesis using assms(4) by (simp add: exponent_def)
qed

lemma exponent_upper: "0 < x \<Longrightarrow> x < 2 powr of_int (exponent x + 1)"
proof -
  assume x: "0 < x"
  have "x < 2 powr of_int (\<lfloor>log 2 x\<rfloor> + 1)"
    using x floor_log_eq_powr_iff[of x 2 "\<lfloor>log 2 x\<rfloor>"] by simp
  also have "\<dots> \<le> 2 powr of_int (exponent x + 1)"
    by (intro powr_mono) (simp_all add: exponent_def)
  finally show ?thesis .
qed

lemma exponent_lower:
  "0 < x \<Longrightarrow> - 1022 < exponent x \<Longrightarrow> 2 powr of_int (exponent x) \<le> x"
proof -
  assume x: "0 < x" and e: "- 1022 < exponent x"
  then have "exponent x = \<lfloor>log 2 x\<rfloor>" by (simp add: exponent_def max_def split: if_splits)
  then show ?thesis using x floor_log_eq_powr_iff[of x 2 "\<lfloor>log 2 x\<rfloor>"] by simp
qed

lemma exponent_mono: "0 < x \<Longrightarrow> x \<le> y \<Longrightarrow> exponent x \<le> exponent y"
proof -
  assume "0 < x" "x \<le> y"
  then have "log 2 x \<le> log 2 y" by simp
  then have "\<lfloor>log 2 x\<rfloor> \<le> \<lfloor>log 2 y\<rfloor>" by (rule floor_mono)
  then show ?thesis by (simp add: exponent_def)
qed

lemma round_pos_nonneg: "0 < x \<Longrightarrow> 0 \<le> round_pos x"
proof -
  assume x: "0 < x"
  have "0 \<le> x / 2 powr of_int (exponent x - 52)" using x by simp
  then have "0 \<le> nearest_even (x / 2 powr of_int (exponent x - 52))"
    using nearest_even_mono[of 0 "x / 2 powr of_int (exponent x - 52)"] nearest_even_of_int[of 0]
    by simp
  then show ?thesis by (simp add: round_pos_def)
qed

lemma two_powr_shift: "(2::real) powr of_int e = 2 ^ k * 2 powr of_int (e - int k)"
proof -
  have "(2::real) powr of_int e = 2 powr (real k + of_int (e - int k))" by simp
  also have "\<dots> = 2 powr real k * 2 powr of_int (e - int k)" by (rule powr_add)
  also have "(2::real) powr real k = 2 ^ k" by (simp add: powr_realpow)
  finally show ?thesis .
qed

lemma round_pos_upper:
  assumes "0 < x"
  shows "round_pos x \<le> 2 powr of_int (exponent x + 1)"
proof -
  let ?u = "2 powr of_int (exponent x - 52) :: real"
  have u: "0 < ?u" by simp
  have s: "2 powr of_int (exponent x + 1) = 2 ^ 53 * ?u"
    using two_powr_shift[of "exponent x + 1" 53] by simp
  have "x < 2 ^ 53 * ?u" using exponent_upper[OF assms] by (simp only: s)
  then have "x \<le> 2 ^ 53 * ?u" by (rule less_imp_le)
  then have "x / ?u \<le> 2 ^ 53" by (subst pos_divide_le_eq[OF u])
  then have "nearest_even (x / ?u) \<le> nearest_even (of_int (2 ^ 53))"
    by (intro nearest_even_mono) simp
  then have "nearest_even (x / ?u) \<le> 2 ^ 53" by (simp only: nearest_even_of_int)
  then have "real_of_int (nearest_even (x / ?u)) \<le> 2 ^ 53"
    by (metis of_int_le_iff of_int_numeral of_int_power)
  then show ?thesis unfolding round_pos_def s using u by (simp add: mult_right_mono)
qed

lemma round_pos_lower:
  assumes "0 < x" "- 1022 < exponent x"
  shows "2 powr of_int (exponent x) \<le> round_pos x"
proof -
  let ?u = "2 powr of_int (exponent x - 52) :: real"
  have u: "0 < ?u" by simp
  have s: "2 powr of_int (exponent x) = 2 ^ 52 * ?u"
    using two_powr_shift[of "exponent x" 52] by simp
  have "2 ^ 52 * ?u \<le> x" using exponent_lower[OF assms] by (simp only: s)
  then have "2 ^ 52 \<le> x / ?u" by (subst pos_le_divide_eq[OF u])
  then have "nearest_even (of_int (2 ^ 52)) \<le> nearest_even (x / ?u)"
    by (intro nearest_even_mono) simp
  then have "2 ^ 52 \<le> nearest_even (x / ?u)" by (simp only: nearest_even_of_int)
  then have "2 ^ 52 \<le> real_of_int (nearest_even (x / ?u))"
    by (metis of_int_le_iff of_int_numeral of_int_power)
  then show ?thesis unfolding round_pos_def s using u by (simp add: mult_right_mono)
qed

lemma round_pos_mono:
  assumes "0 < x" "x \<le> y"
  shows "round_pos x \<le> round_pos y"
proof (cases "exponent x = exponent y")
  case True
  let ?u = "2 powr of_int (exponent y - 52) :: real"
  have "x / ?u \<le> y / ?u" using assms(2) by (simp add: divide_right_mono)
  then have "nearest_even (x / ?u) \<le> nearest_even (y / ?u)" by (rule nearest_even_mono)
  then show ?thesis by (simp add: round_pos_def True mult_right_mono)
next
  case False
  have y: "0 < y" using assms by simp
  have lt: "exponent x < exponent y" using exponent_mono[OF assms] False by simp
  moreover have "- 1022 \<le> exponent x" by (simp add: exponent_def)
  ultimately have ny: "- 1022 < exponent y" by simp
  have "round_pos x \<le> 2 powr of_int (exponent x + 1)" by (rule round_pos_upper[OF assms(1)])
  also have "\<dots> \<le> 2 powr of_int (exponent y)"
    using lt by (intro powr_mono) simp_all
  also have "\<dots> \<le> round_pos y" by (rule round_pos_lower[OF y ny])
  finally show ?thesis .
qed

lemma round_double_mono:
  assumes "0 \<le> x" "x \<le> y"
  shows "pf_le (round_double x) (round_double y)"
proof (cases "x = 0")
  case True
  then show ?thesis using assms round_pos_nonneg[of y] by (auto simp: round_double_def)
next
  case False
  then have x: "0 < x" using assms by simp
  then have y: "0 < y" using assms by simp
  show ?thesis using x y round_pos_mono[OF x assms(2)] by (auto simp: round_double_def)
qed

lemma round_double_eval:
  assumes "0 < x" "2 powr of_int e \<le> x" "x < 2 powr of_int (e + 1)" "- 1022 \<le> e"
    and "of_int n * 2 powr of_int (e - 52) < (2::real) ^ 1024"
    and "nearest_even (x / 2 powr of_int (e - 52)) = n"
  shows "round_double x = Finite (of_int n * 2 powr of_int (e - 52))"
  using assms by (simp add: round_double_def round_pos_def exponent_eq[OF assms(1-4)])

lemma nearest_even_near:
  assumes "of_int n - 1 / 2 < y" "y < of_int n + 1 / 2"
  shows "nearest_even y = n"
proof (cases "y < of_int n")
  case True
  have "\<lfloor>y\<rfloor> = n - 1" using assms(1) True by (intro floor_unique) simp_all
  then show ?thesis using assms(1) by (simp add: nearest_even_def)
next
  case False
  have "\<lfloor>y\<rfloor> = n" using assms(2) False by (intro floor_unique) simp_all
  then show ?thesis using assms(2) by (simp add: nearest_even_def)
qed

lemma round_double_near:
  assumes u: "u = 2 powr of_int (e - 52)" and e: "- 1022 \<le> e"
    and lo: "2 ^ 52 * u \<le> x" and hi: "x < 2 ^ 53 * u"
    and fin: "of_int n * u < 2 ^ 1024"
    and below: "(of_int n - 1 / 2) * u < x" and above: "x < (of_int n + 1 / 2) * u"
  shows "round_double x = Finite (of_int n * u)"
proof -
  have up: "0 < u" by (simp add: u)
  then have x: "0 < x" using lo by (smt (verit) mult_pos_pos zero_less_power)
  have l: "2 powr of_int e = 2 ^ 52 * u" using two_powr_shift[of e 52] by (simp add: u)
  have h: "2 powr of_int (e + 1) = 2 ^ 53 * u" using two_powr_shift[of "e + 1" 53] by (simp add: u)
  have ex: "exponent x = e"
    by (rule exponent_eq[OF x _ _ e]) (simp_all only: l h lo hi)
  have "of_int n - 1 / 2 < x / u" "x / u < of_int n + 1 / 2"
    using below above up by (simp_all add: pos_less_divide_eq pos_divide_less_eq)
  then have "nearest_even (x / u) = n" by (rule nearest_even_near)
  then have "round_pos x = of_int n * u" by (simp add: round_pos_def ex u)
  then show ?thesis using x fin by (simp add: round_double_def)
qed

section \<open>Construction: shuffle and id-to-index dict\<close>

lemma shuffle_from_length: "length (shuffle_from rnd i xs) = length xs"
  by (induction i arbitrary: xs) simp_all

lemma shuffle_from_mset: "i < length xs \<Longrightarrow> mset (shuffle_from rnd i xs) = mset xs"
proof (induction i arbitrary: xs)
  case 0
  then show ?case by simp
next
  case (Suc i)
  let ?j = "rnd (Suc i) mod Suc (Suc i)"
  have j: "?j < length xs" 
  proof -
    have "?j < Suc (Suc i)" by simp
    then show ?thesis using Suc.prems by linarith
  qed
  have "mset (xs[Suc i := xs ! ?j, ?j := xs ! Suc i]) = mset xs"
    by (rule mset_swap[OF j Suc.prems])
  moreover have "i < length (xs[Suc i := xs ! ?j, ?j := xs ! Suc i])"
    using Suc.prems by simp
  ultimately show ?case using Suc.IH by simp
qed

lemma np_random_shuffle_mset: "mset (np_random_shuffle rnd xs) = mset xs"
  by (cases xs) (simp_all add: np_random_shuffle_def shuffle_from_mset)

lemma Individual_init_eq:
  "Individual_init k ps r c shuffle ft rnd =
     (case enum_contains k ft of
        Inl e \<Rightarrow> Inl e
      | Inr inside \<Rightarrow>
          if \<not> inside then Inl ValueError
          else Inr \<lparr>pieces = (if shuffle then np_random_shuffle rnd ps else ps), rows = r,
                    columns = c, priv_fitness = None, fitness_type = ft,
                    priv_piece_mapping =
                      build_piece_mapping (if shuffle then np_random_shuffle rnd ps else ps)\<rparr>)"
  by (simp add: Individual_init_def Individual_init_store_def Let_def split: sum.splits)

lemma Individual_init_member:
  "Individual_init k ps r c shuffle (Member t) rnd =
     Inr \<lparr>pieces = (if shuffle then np_random_shuffle rnd ps else ps), rows = r,
          columns = c, priv_fitness = None, fitness_type = Member t,
          priv_piece_mapping =
            build_piece_mapping (if shuffle then np_random_shuffle rnd ps else ps)\<rparr>"
  by (simp add: Individual_init_eq enum_contains_def)

lemma Individual_init_fresh:
  assumes "Individual_init k ps r c shuffle ft rnd = Inr ind"
  shows "priv_fitness ind = None" and "priv_piece_mapping ind = build_piece_mapping (pieces ind)"
  using assms by (auto simp: Individual_init_eq split: sum.splits if_splits)

lemma build_piece_mapping_snoc:
  "build_piece_mapping (ps @ [p]) = (build_piece_mapping ps)(id_piece p \<mapsto> int (length ps))"
  by (simp add: build_piece_mapping_def enumerate_append_eq store_entry_def)

lemma build_piece_mapping_outside:
  "x \<notin> id_piece ` set ps \<Longrightarrow> build_piece_mapping ps x = None"
  by (induction ps rule: rev_induct) (simp_all add: build_piece_mapping_snoc, simp add: build_piece_mapping_def)

lemma build_piece_mapping_at:
  "distinct (map id_piece ps) \<Longrightarrow> k < length ps \<Longrightarrow>
   build_piece_mapping ps (id_piece (ps ! k)) = Some (int k)"
proof (induction ps rule: rev_induct)
  case Nil
  then show ?case by simp
next
  case (snoc p ps)
  show ?case
  proof (cases "k < length ps")
    case True
    have "id_piece p \<notin> id_piece ` set ps" using snoc.prems(1) by simp
    moreover have "id_piece (ps ! k) \<in> id_piece ` set ps" using True by simp
    ultimately have "id_piece (ps ! k) \<noteq> id_piece p" by metis
    then show ?thesis using snoc True by (simp add: build_piece_mapping_snoc nth_append)
  next
    case False
    then have "k = length ps" using snoc.prems(2) by simp
    then show ?thesis by (simp add: build_piece_mapping_snoc)
  qed
qed

section \<open>Grid access and the similarity loops\<close>

lemma range_py_nat: "range_py (int n) = map int [0..<n]"
proof (induction n)
  case 0
  then show ?case by (simp add: range_py_def)
next
  case (Suc n)
  have "[0..int (Suc n) - 1] = [0..int n - 1] @ [int n]"
    using upto_rec2[of 0 "int n"] by simp
  then show ?case using Suc by (simp add: range_py_def)
qed

lemma range_py_eq: "range_py n = map int [0..<nat n]"
proof (cases "0 \<le> n")
  case True
  then show ?thesis using range_py_nat[of "nat n"] by simp
next
  case False
  then show ?thesis by (simp add: range_py_def)
qed

lemma product_map_map:
  "List.product (map f xs) (map g ys) = map (map_prod f g) (List.product xs ys)"
  by (induction xs) simp_all

lemma clamp_py_nonneg: "clamp_py n (int k) = min k n"
  by (simp add: clamp_py_def)

lemma getitem_row:
  assumes "columns ind = int C" "(i + 1) * C \<le> length (pieces ind)"
  shows "getitem ind (int i) = take C (drop (i * C) (pieces ind))"
proof -
  have a: "int i * int C = int (i * C)" by simp
  have b: "(int i + 1) * int C = int ((i + 1) * C)" by (simp add: algebra_simps)
  have le: "i * C \<le> length (pieces ind)" using assms(2) by simp
  show ?thesis
    unfolding getitem_def slice_py_def assms(1) a b clamp_py_nonneg
    using assms(2) le by (simp add: min_absorb1)
qed

lemma cell_id_grid:
  assumes "columns ind = int C" "(i + 1) * C \<le> length (pieces ind)" "j < C"
  shows "cell_id ind (int i) (int j) = Inr (id_piece (pieces ind ! (i * C + j)))"
proof -
  have len: "length (take C (drop (i * C) (pieces ind))) = C" using assms(2) by simp
  have "index_py (getitem ind (int i)) (int j) = Inr (pieces ind ! (i * C + j))"
    unfolding getitem_row[OF assms(1,2)] index_py_def len using assms(2,3) by simp
  then show ?thesis by (simp add: cell_id_def)
qed

lemma nat_pred: "nat (n - 1) = nat n - 1"
  by linarith

lemma product_Nil_right: "List.product xs [] = []"
  by (induction xs) simp_all

lemma add_rows_sum:
  assumes "columns ind = int C"
    and "\<forall>(i, j) \<in> set prs. (i + 1) * C \<le> length (pieces ind) \<and> j + 1 < C"
  shows "add_rows gd ind (map (map_prod int int) prs) acc =
         Inr (foldl fadd acc
                (map (\<lambda>(i, j). gd (id_piece (pieces ind ! (i * C + j)),
                                   id_piece (pieces ind ! (i * C + j + 1))) ''LR'') prs))"
  using assms(2)
proof (induction prs arbitrary: acc)
  case Nil
  then show ?case by simp
next
  case (Cons pr prs)
  obtain i j where pr: "pr = (i, j)" by (cases pr)
  have b: "(i + 1) * C \<le> length (pieces ind)" and j: "j + 1 < C"
    using Cons.prems pr by auto
  have c1: "cell_id ind (int i) (int j) = Inr (id_piece (pieces ind ! (i * C + j)))"
    using cell_id_grid[OF assms(1) b] j by simp
  have c2: "cell_id ind (int i) (int j + 1) = Inr (id_piece (pieces ind ! (i * C + j + 1)))"
    using cell_id_grid[OF assms(1) b, of "j + 1"] j by (simp add: add.commute)
  have rest: "\<forall>(i, j) \<in> set prs. (i + 1) * C \<le> length (pieces ind) \<and> j + 1 < C"
    using Cons.prems by simp
  show ?case using Cons.IH[OF rest] by (simp add: pr c1 c2)
qed

lemma add_columns_sum:
  assumes "columns ind = int C"
    and "\<forall>(i, j) \<in> set prs. (i + 2) * C \<le> length (pieces ind) \<and> j < C"
  shows "add_columns gd ind (map (map_prod int int) prs) acc =
         Inr (foldl fadd acc
                (map (\<lambda>(i, j). gd (id_piece (pieces ind ! (i * C + j)),
                                   id_piece (pieces ind ! ((i + 1) * C + j))) ''TD'') prs))"
  using assms(2)
proof (induction prs arbitrary: acc)
  case Nil
  then show ?case by simp
next
  case (Cons pr prs)
  obtain i j where pr: "pr = (i, j)" by (cases pr)
  have b2: "(i + 2) * C \<le> length (pieces ind)" and j: "j < C"
    using Cons.prems pr by auto
  have b1: "(i + 1) * C \<le> length (pieces ind)" using b2 by simp
  have b2': "(i + 1 + 1) * C \<le> length (pieces ind)" using b2 by simp
  have c1: "cell_id ind (int i) (int j) = Inr (id_piece (pieces ind ! (i * C + j)))"
    using cell_id_grid[OF assms(1) b1 j] .
  have "cell_id ind (int (i + 1)) (int j) = Inr (id_piece (pieces ind ! ((i + 1) * C + j)))"
    using cell_id_grid[OF assms(1) b2' j] .
  then have c2: "cell_id ind (int i + 1) (int j) = Inr (id_piece (pieces ind ! ((i + 1) * C + j)))"
    by (simp add: add.commute)
  have rest: "\<forall>(i, j) \<in> set prs. (i + 2) * C \<le> length (pieces ind) \<and> j < C"
    using Cons.prems by simp
  show ?case using Cons.IH[OF rest] c1 c2 by (simp add: pr)
qed

lemma grid_rows_fit:
  assumes "int (length ps) = r * int C" "i < nat r"
  shows "(i + 1) * C \<le> length ps"
proof -
  have "int (i + 1) \<le> r" using assms(2) by linarith
  then have "int (i + 1) * int C \<le> r * int C" by (rule mult_right_mono) simp
  moreover have "int ((i + 1) * C) = int (i + 1) * int C" by (simp only: of_nat_mult)
  ultimately have "int ((i + 1) * C) \<le> int (length ps)" using assms(1) by linarith
  then show ?thesis by linarith
qed

lemma first_value: "fdiv (Finite 1) FITNESS_FACTOR = Inr (round_double (1 / 1000))"
  by (simp add: FITNESS_FACTOR_def)

lemma priv_similarity_accumulates:
  assumes len: "int (length (pieces ind)) = rows ind * columns ind"
  shows "priv_similarity gd ind = fdiv FITNESS_FACTOR (accumulated_dissimilarity gd ind)"
proof (cases "0 < columns ind")
  case False
  then have "nat (columns ind) = 0" "range_py (columns ind) = []" "range_py (columns ind - 1) = []"
    by (simp_all add: range_py_def)
  then show ?thesis
    by (simp add: priv_similarity_def accumulated_dissimilarity_def first_value
        horizontal_dissimilarities_def vertical_dissimilarities_def product_Nil_right)
next
  case True
  define C where "C = nat (columns ind)"
  define R where "R = nat (rows ind)"
  have c: "columns ind = int C" using True by (simp add: C_def)
  have len': "int (length (pieces ind)) = rows ind * int C" using len c by simp
  have r1: "range_py (rows ind) = map int [0..<R]" by (simp add: range_py_eq R_def)
  have r2: "range_py (rows ind - 1) = map int [0..<R - 1]"
    by (simp only: range_py_eq R_def nat_pred)
  have c1: "range_py (columns ind) = map int [0..<C]" by (simp add: range_py_eq C_def)
  have c2: "range_py (columns ind - 1) = map int [0..<C - 1]"
    by (simp only: range_py_eq C_def nat_pred)
  have h: "\<forall>(i, j) \<in> set (List.product [0..<R] [0..<C - 1]).
             (i + 1) * C \<le> length (pieces ind) \<and> j + 1 < C"
    using grid_rows_fit[OF len'] by (auto simp: R_def)
  have v: "\<forall>(i, j) \<in> set (List.product [0..<R - 1] [0..<C]).
             (i + 2) * C \<le> length (pieces ind) \<and> j < C"
  proof -
    have "(i + 2) * C \<le> length (pieces ind)" if "i < R - 1" for i
      using grid_rows_fit[OF len', of "i + 1"] that by (simp add: R_def)
    then show ?thesis by auto
  qed
  show ?thesis
    unfolding priv_similarity_def first_value r1 r2 c1 c2 product_map_map
      add_rows_sum[OF c h] add_columns_sum[OF c v]
    by (simp add: accumulated_dissimilarity_def horizontal_dissimilarities_def
        vertical_dissimilarities_def C_def R_def)
qed

section \<open>Neighbour lookup\<close>

lemma id_at_nat:
  "k < length (pieces ind) \<Longrightarrow> id_at ind (int k) = Inr (Some (id_piece (pieces ind ! k)))"
  by (simp add: id_at_def index_py_def)

lemma well_formed_grid:
  assumes "well_formed ind"
  shows "columns ind = int (nat (columns ind))"
    and "0 < nat (columns ind)"
    and "length (pieces ind) = nat (rows ind) * nat (columns ind)"
    and "(rows ind - 1) * columns ind =
           int (nat (rows ind) * nat (columns ind)) - int (nat (columns ind))"
proof -
  have c: "0 < columns ind" and len: "int (length (pieces ind)) = rows ind * columns ind"
    using assms by (simp_all add: well_formed_def)
  show "columns ind = int (nat (columns ind))" "0 < nat (columns ind)" using c by simp_all
  have r: "0 \<le> rows ind"
  proof (rule ccontr)
    assume "\<not> 0 \<le> rows ind"
    then have "rows ind * columns ind < 0" using c by (simp add: mult_neg_pos)
    then show False using len by linarith
  qed
  have "int (length (pieces ind)) = int (nat (rows ind) * nat (columns ind))"
    using len r c by simp
  then show l: "length (pieces ind) = nat (rows ind) * nat (columns ind)" by linarith
  show "(rows ind - 1) * columns ind =
           int (nat (rows ind) * nat (columns ind)) - int (nat (columns ind))"
    using r c by (simp add: algebra_simps)
qed

lemma grid_next_in_row:
  assumes "k < R * C" "k mod C \<noteq> C - 1" "0 < (C::nat)"
  shows "k + 1 < R * C"
proof -
  have "k mod C < C" using assms(3) by simp
  then have m: "k mod C + 1 < C" using assms(2) by linarith
  have "k div C < R" using assms(1,3) by (simp add: less_mult_imp_div_less)
  then have "(k div C + 1) * C \<le> R * C" by (intro mult_le_mono1) simp
  then have "k div C * C + C \<le> R * C" by simp
  moreover have "k = k div C * C + k mod C" by simp
  ultimately show ?thesis using m by linarith
qed

lemma grid_last_row:
  assumes "k < R * C" "0 < (C::nat)"
  shows "k < R * C - C \<longleftrightarrow> k div C \<noteq> R - 1"
proof -
  have d: "k div C < R" using assms by (simp add: less_mult_imp_div_less)
  have "k < (R - 1) * C \<longleftrightarrow> k div C < R - 1"
    using assms(2) by (simp add: div_less_iff_less_mult)
  moreover have "(R - 1) * C = R * C - C" by (simp add: diff_mult_distrib)
  ultimately show ?thesis using d by auto
qed

lemma edge_neighbor_aux:
  assumes wf: "well_formed ind" and k: "k < length (pieces ind)"
  shows "edge ind (id_piece (pieces ind ! k)) ''T'' =
           Inr (if k div nat (columns ind) = 0 then None
                else Some (id_piece (pieces ind ! (k - nat (columns ind)))))"
    and "edge ind (id_piece (pieces ind ! k)) ''R'' =
           Inr (if k mod nat (columns ind) = nat (columns ind) - 1 then None
                else Some (id_piece (pieces ind ! (k + 1))))"
    and "edge ind (id_piece (pieces ind ! k)) ''D'' =
           Inr (if k div nat (columns ind) = nat (rows ind) - 1 then None
                else Some (id_piece (pieces ind ! (k + nat (columns ind)))))"
    and "edge ind (id_piece (pieces ind ! k)) ''L'' =
           Inr (if k mod nat (columns ind) = 0 then None
                else Some (id_piece (pieces ind ! (k - 1))))"
proof -
  define C where "C = nat (columns ind)"
  define R where "R = nat (rows ind)"
  note g = well_formed_grid[OF wf, folded C_def R_def]
  have c: "columns ind = int C" and C: "0 < C" and len: "length (pieces ind) = R * C"
    using g by simp_all
  have rc: "(rows ind - 1) * columns ind = int (R * C) - int C"
    using g(4) by simp
  have rc': "(rows ind - 1) * int C = int (R * C) - int C"
    using rc c by simp
  have kRC: "k < R * C" using k len by simp
  have m: "priv_piece_mapping ind (id_piece (pieces ind ! k)) = Some (int k)"
    using wf k by (simp add: well_formed_def build_piece_mapping_at)
  have modC: "int k mod int C = int (k mod C)" by (simp add: zmod_int)
  have lt: "k mod C < C" using C by simp
  show "edge ind (id_piece (pieces ind ! k)) ''T'' =
           Inr (if k div C = 0 then None else Some (id_piece (pieces ind ! (k - C))))"
  proof (cases "k < C")
    case True
    then show ?thesis by (simp add: edge_def m c)
  next
    case False
    then have "int k - int C = int (k - C)" by simp
    moreover have "k - C < length (pieces ind)" using k by simp
    ultimately have "id_at ind (int k - int C) = Inr (Some (id_piece (pieces ind ! (k - C))))"
      using id_at_nat by metis
    then show ?thesis using False C by (simp add: edge_def m c div_eq_0_iff)
  qed
  show "edge ind (id_piece (pieces ind ! k)) ''R'' =
           Inr (if k mod C = C - 1 then None else Some (id_piece (pieces ind ! (k + 1))))"
  proof (cases "k mod C = C - 1")
    case True
    then show ?thesis using C by (simp add: edge_def m c modC)
  next
    case False
    have "k + 1 < length (pieces ind)" using grid_next_in_row[OF kRC False C] len by simp
    then have "id_at ind (int k + 1) = Inr (Some (id_piece (pieces ind ! (k + 1))))"
      using id_at_nat[of "k + 1" ind] by (simp add: add.commute)
    moreover have "int (k mod C) < int C - 1" using False lt by linarith
    ultimately show ?thesis using False C by (simp add: edge_def m c modC)
  qed
  show "edge ind (id_piece (pieces ind ! k)) ''D'' =
           Inr (if k div C = R - 1 then None else Some (id_piece (pieces ind ! (k + C))))"
  proof (cases "k div C = R - 1")
    case True
    then have "\<not> k < R * C - C" using grid_last_row[OF kRC C] by simp
    then have "\<not> int k < int (R * C) - int C" by linarith
    then show ?thesis using True by (simp add: edge_def m rc)
  next
    case False
    then have l: "k < R * C - C" using grid_last_row[OF kRC C] by simp
    then have "int k < int (R * C) - int C" by linarith
    moreover have "k + C < length (pieces ind)" using l len by linarith
    then have "id_at ind (int k + int C) = Inr (Some (id_piece (pieces ind ! (k + C))))"
      using id_at_nat[of "k + C" ind] by simp
    ultimately show ?thesis using False by (simp add: edge_def m c rc')
  qed
  show "edge ind (id_piece (pieces ind ! k)) ''L'' =
           Inr (if k mod C = 0 then None else Some (id_piece (pieces ind ! (k - 1))))"
  proof (cases "k mod C = 0")
    case True
    then show ?thesis using C by (simp add: edge_def m c modC)
  next
    case False
    then have "0 < k" by (cases k) simp_all
    then have "int k - 1 = int (k - 1)" by simp
    moreover have "k - 1 < length (pieces ind)" using k by simp
    ultimately have "id_at ind (int k - 1) = Inr (Some (id_piece (pieces ind ! (k - 1))))"
      using id_at_nat by metis
    then show ?thesis using False C by (simp add: edge_def m c modC)
  qed
qed

section \<open>The accumulated sum and its inverse\<close>

lemma round_double_zero: "round_double 0 = Finite 0"
  by (simp add: round_double_def)

lemma round_double_start_bound: "round_double (1 / 1024) = Finite (1 / 1024)"
proof -
  have "round_double (1 / 1024) = Finite (of_int (2 ^ 52) * (1 / 2 ^ 62))"
    by (rule round_double_near[where e = "- 10"]) (simp_all add: powr_neg_numeral)
  then show ?thesis by simp
qed

lemma round_double_above_bound:
  assumes "1 / 1024 \<le> x"
  shows "pf_le (Finite (1 / 1024)) (round_double x)"
  using round_double_mono[of "1 / 1024" x] assms by (simp add: round_double_start_bound)

lemma round_double_nonneg:
  assumes "0 \<le> x"
  shows "pf_le (Finite 0) (round_double x)"
  using round_double_mono[of 0 x] assms by (simp add: round_double_zero)

lemma fadd_above_bound:
  assumes "pf_le (Finite (1 / 1024)) acc" and "pf_le (Finite 0) d"
  shows "pf_le (Finite (1 / 1024)) (fadd acc d)"
proof (cases acc)
  case (Finite a)
  then have a: "1 / 1024 \<le> a" using assms(1) by simp
  show ?thesis
  proof (cases d)
    case (Finite b)
    then have "0 \<le> b" using assms(2) by simp
    then have "1 / 1024 \<le> a + b" using a by simp
    then show ?thesis using \<open>acc = Finite a\<close> Finite by (simp add: round_double_above_bound)
  qed (use assms(2) \<open>acc = Finite a\<close> in simp_all)
next
  case PInf
  then show ?thesis using assms(2) by (cases d) simp_all
qed (use assms(1) in simp_all)

lemma foldl_fadd_above_bound:
  assumes "pf_le (Finite (1 / 1024)) acc" and "\<forall>d \<in> set ds. pf_le (Finite 0) d"
  shows "pf_le (Finite (1 / 1024)) (foldl fadd acc ds)"
  using assms by (induction ds arbitrary: acc) (simp_all add: fadd_above_bound)

lemma accumulated_above_bound:
  assumes "\<And>ids orientation. pf_le (Finite 0) (gd ids orientation)"
  shows "pf_le (Finite (1 / 1024)) (accumulated_dissimilarity gd ind)"
proof -
  have h: "\<forall>d \<in> set (horizontal_dissimilarities gd ind). pf_le (Finite 0) d"
    by (auto simp: horizontal_dissimilarities_def assms)
  have v: "\<forall>d \<in> set (vertical_dissimilarities gd ind). pf_le (Finite 0) d"
    by (auto simp: vertical_dissimilarities_def assms)
  have "pf_le (Finite (1 / 1024)) (round_double (1 / 1000))"
    by (rule round_double_above_bound) simp
  then show ?thesis
    unfolding accumulated_dissimilarity_def
    by (intro foldl_fadd_above_bound h v)
qed

lemma inverse_defined:
  assumes "pf_le (Finite (1 / 1024)) acc"
  shows "\<exists>v. fdiv FITNESS_FACTOR acc = Inr v \<and> pf_le (Finite 0) v"
proof (cases acc)
  case (Finite a)
  then have "1 / 1024 \<le> a" using assms by simp
  then have "0 < a" by simp
  then show ?thesis using Finite by (simp add: FITNESS_FACTOR_def round_double_nonneg)
next
  case PInf
  then show ?thesis by (simp add: FITNESS_FACTOR_def)
qed (use assms in simp_all)

lemma inverse_antimono:
  assumes "pf_le (Finite (1 / 1024)) a" and "pf_le (Finite (1 / 1024)) b" and "pf_le a b"
    and "fdiv FITNESS_FACTOR a = Inr va" and "fdiv FITNESS_FACTOR b = Inr vb"
  shows "pf_le vb va"
proof (cases b)
  case (Finite y)
  then obtain x where x: "a = Finite x" using assms(1,3) by (cases a) simp_all
  have pos: "0 < x" "x \<le> y" using assms(1,3) x Finite by simp_all
  then have "0 \<le> 1000 / y" "1000 / y \<le> 1000 / x" by (simp_all add: frac_le)
  then have "pf_le (round_double (1000 / y)) (round_double (1000 / x))"
    by (rule round_double_mono)
  then show ?thesis using assms(4,5) x Finite pos by (simp add: FITNESS_FACTOR_def)
next
  case PInf
  then have "vb = Finite 0" using assms(5) by (simp add: FITNESS_FACTOR_def)
  then show ?thesis using inverse_defined[OF assms(1)] assms(4) by simp
qed (use assms(2) in simp_all)

section \<open>Sample data, evaluated\<close>

lemma sample_ids:
  "map id_piece sample_pieces = [7, 3, 9, 5]"
  "map id_piece three_pieces = [7, 3, 9]"
  "map id_piece pair_ascending = [1, 2]"
  "map id_piece pair_descending = [2, 1]"
  by (simp_all add: sample_pieces_def three_pieces_def pair_ascending_def pair_descending_def
      sample_piece_def)

lemma sample_lengths:
  "length sample_pieces = 4" "length three_pieces = 3"
  "length pair_ascending = 2" "length pair_descending = 2"
  by (simp_all add: sample_pieces_def three_pieces_def pair_ascending_def pair_descending_def)

lemma shuffle_four: "np_random_shuffle sample_rnd [a, b, c, d] = [a, c, d, b]"
  by (simp add: np_random_shuffle_def)

lemma sample_shuffled:
  "np_random_shuffle sample_rnd sample_pieces =
     [sample_piece 7, sample_piece 9, sample_piece 5, sample_piece 3]"
  by (simp add: sample_pieces_def shuffle_four)

lemma sample_sound:
  "fitness_type (sample_individual ps ft) = ft"
  "priv_fitness (sample_individual ps ft) = None"
  "pieces (sample_individual ps ft) = ps"
  "rows (sample_individual ps ft) = 2"
  "columns (sample_individual ps ft) = 2"
  "priv_piece_mapping (sample_individual ps ft) = build_piece_mapping ps"
  by (simp_all add: sample_individual_def)

lemma pair_sound:
  "fitness_type (pair_individual ps ft) = ft"
  "priv_fitness (pair_individual ps ft) = None"
  "pieces (pair_individual ps ft) = ps"
  "rows (pair_individual ps ft) = 1"
  "columns (pair_individual ps ft) = 2"
  "priv_piece_mapping (pair_individual ps ft) = build_piece_mapping ps"
  by (simp_all add: pair_individual_def)

lemma sample_init:
  "Individual_init k ps 2 2 False (Member t) rnd = Inr (sample_individual ps (Member t))"
  by (simp add: Individual_init_member sample_individual_def)

lemma pair_init:
  "Individual_init k ps 1 2 False (Member t) rnd = Inr (pair_individual ps (Member t))"
  by (simp add: Individual_init_member pair_individual_def)

lemma sample_well_formed:
  "well_formed (sample_individual sample_pieces ft)"
  by (simp add: well_formed_def sample_sound sample_ids sample_lengths)

lemma pair_dissimilarities:
  "horizontal_dissimilarities sample_gd (pair_individual pair_ascending ft)
     = [Finite (6755399441055748 / 2 ^ 52)]"
  "horizontal_dissimilarities sample_gd (pair_individual pair_descending ft)
     = [Finite (6755399441055749 / 2 ^ 52)]"
  "vertical_dissimilarities gd (pair_individual ps ft) = []"
  by (simp_all add: horizontal_dissimilarities_def vertical_dissimilarities_def pair_sound
      pair_ascending_def pair_descending_def sample_piece_def)

lemma round_start: "round_double (1 / 1000) = Finite (4611686018427388 / 2 ^ 62)"
proof -
  have "round_double (1 / 1000) = Finite (of_int 4611686018427388 * (1 / 2 ^ 62))"
    by (rule round_double_near[where e = "- 10"]) (simp_all add: powr_neg_numeral)
  then show ?thesis by simp
qed

lemma round_sum_ascending:
  "round_double (4611686018427388 / 2 ^ 62 + 6755399441055748 / 2 ^ 52)
     = Finite (6759903040683118 / 2 ^ 52)"
proof -
  have "round_double (4611686018427388 / 2 ^ 62 + 6755399441055748 / 2 ^ 52)
          = Finite (of_int 6759903040683118 * (1 / 2 ^ 52))"
    by (rule round_double_near[where e = 0]) (simp_all add: powr_neg_numeral)
  then show ?thesis by simp
qed

lemma round_sum_descending:
  "round_double (4611686018427388 / 2 ^ 62 + 6755399441055749 / 2 ^ 52)
     = Finite (6759903040683119 / 2 ^ 52)"
proof -
  have "round_double (4611686018427388 / 2 ^ 62 + 6755399441055749 / 2 ^ 52)
          = Finite (of_int 6759903040683119 * (1 / 2 ^ 52))"
    by (rule round_double_near[where e = 0]) (simp_all add: powr_neg_numeral)
  then show ?thesis by simp
qed

lemma round_inverse_ascending:
  "round_double (1000 / (6759903040683118 / 2 ^ 52)) = Finite (5860155244642235 / 2 ^ 43)"
proof -
  have "round_double (1000 / (6759903040683118 / 2 ^ 52))
          = Finite (of_int 5860155244642235 * (1 / 2 ^ 43))"
    by (rule round_double_near[where e = 9]) (simp_all add: powr_neg_numeral)
  then show ?thesis by simp
qed

lemma round_inverse_descending:
  "round_double (1000 / (6759903040683119 / 2 ^ 52)) = Finite (5860155244642235 / 2 ^ 43)"
proof -
  have "round_double (1000 / (6759903040683119 / 2 ^ 52))
          = Finite (of_int 5860155244642235 * (1 / 2 ^ 43))"
    by (rule round_double_near[where e = 9]) (simp_all add: powr_neg_numeral)
  then show ?thesis by simp
qed

lemma pair_accumulated:
  "accumulated_dissimilarity sample_gd (pair_individual pair_ascending ft)
     = Finite (6759903040683118 / 2 ^ 52)"
  "accumulated_dissimilarity sample_gd (pair_individual pair_descending ft)
     = Finite (6759903040683119 / 2 ^ 52)"
  by (simp_all only: accumulated_dissimilarity_def pair_dissimilarities round_start foldl.simps
      fadd.simps round_sum_ascending round_sum_descending)

lemma pair_similarity:
  "priv_similarity sample_gd (pair_individual pair_ascending ft)
     = Inr (Finite (5860155244642235 / 2 ^ 43))"
  "priv_similarity sample_gd (pair_individual pair_descending ft)
     = Inr (Finite (5860155244642235 / 2 ^ 43))"
proof -
  have len: "int (length (pieces (pair_individual ps ft))) =
      rows (pair_individual ps ft) * columns (pair_individual ps ft)" if "length ps = 2" for ps
    using that by (simp add: pair_sound)
  have a: "fdiv FITNESS_FACTOR (Finite (6759903040683118 / 2 ^ 52))
             = Inr (round_double (1000 / (6759903040683118 / 2 ^ 52)))"
    by (simp add: FITNESS_FACTOR_def)
  have d: "fdiv FITNESS_FACTOR (Finite (6759903040683119 / 2 ^ 52))
             = Inr (round_double (1000 / (6759903040683119 / 2 ^ 52)))"
    by (simp add: FITNESS_FACTOR_def)
  show "priv_similarity sample_gd (pair_individual pair_ascending ft)
     = Inr (Finite (5860155244642235 / 2 ^ 43))"
    by (simp only: priv_similarity_accumulates[OF len[OF sample_lengths(3)]] pair_accumulated a
        round_inverse_ascending)
  show "priv_similarity sample_gd (pair_individual pair_descending ft)
     = Inr (Finite (5860155244642235 / 2 ^ 43))"
    by (simp only: priv_similarity_accumulates[OF len[OF sample_lengths(4)]] pair_accumulated d
        round_inverse_descending)
qed

lemma pair_totals:
  "total_dissimilarity sample_gd (pair_individual pair_ascending ft) = 6755399441055748 / 2 ^ 52"
  "total_dissimilarity sample_gd (pair_individual pair_descending ft) = 6755399441055749 / 2 ^ 52"
  by (simp_all add: total_dissimilarity_def pair_dissimilarities)

lemma sample_gd_nonneg: "pf_le (Finite 0) (sample_gd ids orientation)"
  by (cases ids) simp

section \<open>Fitness\<close>

lemma fitness_fresh:
  "priv_fitness ind = None \<Longrightarrow>
   fitness gd asm sem ind =
     (case compute_fitness gd asm sem ind of
        Inl e \<Rightarrow> Inl e
      | Inr v \<Rightarrow> Inr (v, ind\<lparr>priv_fitness := Some v\<rparr>))"
  by (simp add: fitness_def)

lemma fitness_stored:
  "priv_fitness ind = Some v \<Longrightarrow> fitness gd asm sem ind = Inr (v, ind)"
  by (simp add: fitness_def)

lemma pair_fitness:
  "fitness sample_gd sample_asm sample_sem (pair_individual pair_ascending (Member Similarity))
     = Inr (Finite (5860155244642235 / 2 ^ 43),
            (pair_individual pair_ascending (Member Similarity))
              \<lparr>priv_fitness := Some (Finite (5860155244642235 / 2 ^ 43))\<rparr>)"
  "fitness sample_gd sample_asm sample_sem (pair_individual pair_descending (Member Similarity))
     = Inr (Finite (5860155244642235 / 2 ^ 43),
            (pair_individual pair_descending (Member Similarity))
              \<lparr>priv_fitness := Some (Finite (5860155244642235 / 2 ^ 43))\<rparr>)"
  by (simp_all add: fitness_def compute_fitness_def pair_sound pair_similarity)

text \<open>
  C1, as the code has it. The fitness of an Individual of fitness type Similarity, on
  first access, is \<open>FITNESS_FACTOR\<close> divided by the sum that float arithmetic accumulates
  from \<open>1 / FITNESS_FACTOR\<close> and the dissimilarity of every horizontally adjacent pair and
  then of every vertically adjacent pair of the grid. The constant keeps the divisor
  positive, so the division never raises, also when every dissimilarity is zero. Of two
  arrangements the one with the smaller accumulated sum has a fitness that is at least as
  great. There is one piece per grid cell and no dissimilarity is negative or a NaN.
\<close>

theorem similarity_is_inverse_of_accumulated_dissimilarity:
  assumes "fitness_type a = Member Similarity" and "priv_fitness a = None"
    and "int (length (pieces a)) = rows a * columns a"
    and "fitness_type b = Member Similarity" and "priv_fitness b = None"
    and "int (length (pieces b)) = rows b * columns b"
    and "\<forall>ids orientation. pf_le (Finite 0) (gd ids orientation)"
  shows "\<exists>va vb.
            fitness gd asm sem a = Inr (va, a\<lparr>priv_fitness := Some va\<rparr>)
          \<and> fitness gd asm sem b = Inr (vb, b\<lparr>priv_fitness := Some vb\<rparr>)
          \<and> fdiv FITNESS_FACTOR (accumulated_dissimilarity gd a) = Inr va
          \<and> fdiv FITNESS_FACTOR (accumulated_dissimilarity gd b) = Inr vb
          \<and> (pf_le (accumulated_dissimilarity gd a) (accumulated_dissimilarity gd b)
               \<longrightarrow> pf_le vb va)"
proof -
  have nn: "pf_le (Finite 0) (gd ids orientation)" for ids orientation
    using assms(7) by blast
  note ba = accumulated_above_bound[of gd a, OF nn]
  note bb = accumulated_above_bound[of gd b, OF nn]
  obtain va where va: "fdiv FITNESS_FACTOR (accumulated_dissimilarity gd a) = Inr va"
    using inverse_defined[OF ba] by blast
  obtain vb where vb: "fdiv FITNESS_FACTOR (accumulated_dissimilarity gd b) = Inr vb"
    using inverse_defined[OF bb] by blast
  have fa: "fitness gd asm sem a = Inr (va, a\<lparr>priv_fitness := Some va\<rparr>)"
    by (simp add: fitness_fresh[OF assms(2)] compute_fitness_def assms(1)
        priv_similarity_accumulates[OF assms(3)] va)
  have fb: "fitness gd asm sem b = Inr (vb, b\<lparr>priv_fitness := Some vb\<rparr>)"
    by (simp add: fitness_fresh[OF assms(5)] compute_fitness_def assms(4)
        priv_similarity_accumulates[OF assms(6)] vb)
  have "pf_le (accumulated_dissimilarity gd a) (accumulated_dissimilarity gd b) \<longrightarrow> pf_le vb va"
    using inverse_antimono[OF ba bb _ va vb] by blast
  then show ?thesis using fa fb va vb by blast
qed

theorem similarity_is_inverse_of_accumulated_dissimilarity_witness:
  "accumulated_dissimilarity sample_gd (pair_individual pair_ascending (Member Similarity))
     = Finite (6759903040683118 / 2 ^ 52)
   \<and> accumulated_dissimilarity sample_gd (pair_individual pair_descending (Member Similarity))
     = Finite (6759903040683119 / 2 ^ 52)
   \<and> (\<exists>va vb.
         fitness sample_gd sample_asm sample_sem (pair_individual pair_ascending (Member Similarity))
           = Inr (va, (pair_individual pair_ascending (Member Similarity))\<lparr>priv_fitness := Some va\<rparr>)
       \<and> fitness sample_gd sample_asm sample_sem (pair_individual pair_descending (Member Similarity))
           = Inr (vb, (pair_individual pair_descending (Member Similarity))\<lparr>priv_fitness := Some vb\<rparr>)
       \<and> va = Finite (5860155244642235 / 2 ^ 43)
       \<and> vb = Finite (5860155244642235 / 2 ^ 43)
       \<and> pf_le vb va)"
proof -
  let ?a = "pair_individual pair_ascending (Member Similarity)"
  let ?b = "pair_individual pair_descending (Member Similarity)"
  have nn: "\<forall>ids orientation. pf_le (Finite 0) (sample_gd ids orientation)"
    using sample_gd_nonneg by blast
  have la: "int (length (pieces ?a)) = rows ?a * columns ?a"
    and lb: "int (length (pieces ?b)) = rows ?b * columns ?b"
    by (simp_all add: pair_sound sample_lengths)
  have le: "pf_le (accumulated_dissimilarity sample_gd ?a) (accumulated_dissimilarity sample_gd ?b)"
    by (simp add: pair_accumulated)
  from similarity_is_inverse_of_accumulated_dissimilarity
    [of ?a ?b sample_gd sample_asm sample_sem, OF _ _ la _ _ lb nn]
  obtain va vb where
    f: "fitness sample_gd sample_asm sample_sem ?a = Inr (va, ?a\<lparr>priv_fitness := Some va\<rparr>)"
       "fitness sample_gd sample_asm sample_sem ?b = Inr (vb, ?b\<lparr>priv_fitness := Some vb\<rparr>)"
    and o: "pf_le vb va"
    using le by (auto simp: pair_sound)
  have "va = Finite (5860155244642235 / 2 ^ 43)" "vb = Finite (5860155244642235 / 2 ^ 43)"
    using f by (simp_all add: pair_fitness)
  then show ?thesis using f o pair_accumulated by blast
qed

text \<open>
  C1, as stated, fails. Two pieces in one row: in ascending order the one adjacent pair
  has the dissimilarity \<open>0x1.8000000000004p+0\<close>, in descending order the next greater
  double. The first arrangement has the strictly lower total dissimilarity, and both have
  the same fitness, \<open>0x1.4d1c7b7af7fbbp+9\<close>.
\<close>

theorem lower_dissimilarity_same_fitness:
  "total_dissimilarity sample_gd (pair_individual pair_ascending (Member Similarity))
     < total_dissimilarity sample_gd (pair_individual pair_descending (Member Similarity))
   \<and> fitness sample_gd sample_asm sample_sem (pair_individual pair_ascending (Member Similarity))
     = Inr (Finite (5860155244642235 / 2 ^ 43),
            (pair_individual pair_ascending (Member Similarity))
              \<lparr>priv_fitness := Some (Finite (5860155244642235 / 2 ^ 43))\<rparr>)
   \<and> fitness sample_gd sample_asm sample_sem (pair_individual pair_descending (Member Similarity))
     = Inr (Finite (5860155244642235 / 2 ^ 43),
            (pair_individual pair_descending (Member Similarity))
              \<lparr>priv_fitness := Some (Finite (5860155244642235 / 2 ^ 43))\<rparr>)"
  by (simp add: pair_totals pair_fitness)

section \<open>Construction\<close>

text \<open>
  C2. Constructing an Individual from a piece sequence with pairwise distinct ids
  succeeds for each of the three fitness types, with or without shuffling, and the
  constructed piece list is a permutation of the sequence: it has the same pieces with the
  same multiplicities, its ids are pairwise distinct, and they are the ids of the sequence.
\<close>

theorem init_keeps_every_piece_once:
  assumes "distinct (map id_piece ps)"
  shows "\<exists>ind. Individual_init py ps r c shuffle (Member t) rnd = Inr ind
           \<and> mset (pieces ind) = mset ps
           \<and> distinct (map id_piece (pieces ind))
           \<and> set (map id_piece (pieces ind)) = set (map id_piece ps)"
proof -
  define own where "own = (if shuffle then np_random_shuffle rnd ps else ps)"
  have m: "mset own = mset ps" by (simp add: own_def np_random_shuffle_mset)
  then have mm: "mset (map id_piece own) = mset (map id_piece ps)" by simp
  have d: "distinct (map id_piece own)"
    using mset_eq_imp_distinct_iff[OF mm] assms by simp
  have s: "set (map id_piece own) = set (map id_piece ps)"
    using mset_eq_setD[OF mm] .
  have "Individual_init py ps r c shuffle (Member t) rnd =
          Inr \<lparr>pieces = own, rows = r, columns = c, priv_fitness = None,
               fitness_type = Member t, priv_piece_mapping = build_piece_mapping own\<rparr>"
    by (simp add: Individual_init_member own_def)
  then show ?thesis using m d s by simp
qed

theorem init_keeps_every_piece_once_witness:
  "distinct (map id_piece sample_pieces)
   \<and> (\<exists>ind. Individual_init ContainsByValue sample_pieces 2 2 True (Member Similarity) sample_rnd = Inr ind
           \<and> pieces ind = [sample_piece 7, sample_piece 9, sample_piece 5, sample_piece 3]
           \<and> mset (pieces ind) = mset sample_pieces
           \<and> distinct (map id_piece (pieces ind))
           \<and> set (map id_piece (pieces ind)) = set (map id_piece sample_pieces))"
proof -
  have d: "distinct (map id_piece sample_pieces)" by (simp add: sample_ids)
  from init_keeps_every_piece_once[OF d, of ContainsByValue 2 2 True Similarity sample_rnd]
  obtain ind where i: "Individual_init ContainsByValue sample_pieces 2 2 True (Member Similarity) sample_rnd = Inr ind"
    and rest: "mset (pieces ind) = mset sample_pieces" "distinct (map id_piece (pieces ind))"
      "set (map id_piece (pieces ind)) = set (map id_piece sample_pieces)"
    by blast
  have "pieces ind = [sample_piece 7, sample_piece 9, sample_piece 5, sample_piece 3]"
    using i by (auto simp: Individual_init_member sample_shuffled)
  then show ?thesis using d i rest by blast
qed

text \<open>
  C9. In a constructed Individual whose pieces carry pairwise distinct ids,
  \<^verbatim>\<open>piece_by_id\<close> applied to the id of the piece at index \<open>k\<close> returns that piece: the
  dict built at construction sends the id of each piece to its index.
\<close>

theorem piece_by_id_inverts_indexing:
  assumes "Individual_init py ps r c shuffle ft rnd = Inr ind"
    and "distinct (map id_piece (pieces ind))"
    and "k < length (pieces ind)"
  shows "priv_piece_mapping ind (id_piece (pieces ind ! k)) = Some (int k)
         \<and> piece_by_id ind (id_piece (pieces ind ! k)) = Inr (pieces ind ! k)"
proof -
  have "priv_piece_mapping ind = build_piece_mapping (pieces ind)"
    by (rule Individual_init_fresh(2)[OF assms(1)])
  then have "priv_piece_mapping ind (id_piece (pieces ind ! k)) = Some (int k)"
    using build_piece_mapping_at[OF assms(2,3)] by simp
  then show ?thesis using assms(3) by (simp add: piece_by_id_def index_py_def)
qed

theorem piece_by_id_inverts_indexing_witness:
  "Individual_init ContainsByValue sample_pieces 2 2 False (Member Similarity) sample_rnd
     = Inr (sample_individual sample_pieces (Member Similarity))
   \<and> distinct (map id_piece (pieces (sample_individual sample_pieces (Member Similarity))))
   \<and> 2 < length (pieces (sample_individual sample_pieces (Member Similarity)))
   \<and> priv_piece_mapping (sample_individual sample_pieces (Member Similarity)) 9 = Some 2
   \<and> piece_by_id (sample_individual sample_pieces (Member Similarity)) 9 = Inr (sample_piece 9)"
proof -
  let ?ind = "sample_individual sample_pieces (Member Similarity)"
  have i: "Individual_init ContainsByValue sample_pieces 2 2 False (Member Similarity) sample_rnd = Inr ?ind"
    by (rule sample_init)
  have d: "distinct (map id_piece (pieces ?ind))" by (simp add: sample_sound sample_ids)
  have k: "2 < length (pieces ?ind)" by (simp add: sample_sound sample_lengths)
  have at: "pieces ?ind ! 2 = sample_piece 9" by (simp add: sample_sound sample_pieces_def)
  have "id_piece (sample_piece 9 :: nat Piece) = 9" by (simp add: sample_piece_def)
  then show ?thesis
    using piece_by_id_inverts_indexing[OF i d k] i d k by (simp add: at)
qed

text \<open>
  C10. Constructing an Individual leaves every list object that existed before the call
  as it was, the caller's piece list among them: the constructor copies the list into a new
  object and shuffles only the copy. This holds with and without shuffling, and also when
  the constructor raises.
\<close>

theorem init_leaves_the_callers_list:
  assumes "a < length st"
  shows "fst (Individual_init_store py st a r c shuffle ft rnd) ! a = st ! a
         \<and> take (length st) (fst (Individual_init_store py st a r c shuffle ft rnd)) = st
         \<and> fst (snd (Individual_init_store py st a r c shuffle ft rnd)) \<noteq> a"
  using assms
  by (simp add: Individual_init_store_def Let_def nth_append nth_list_update)

theorem init_leaves_the_callers_list_witness:
  "(0::nat) < length [sample_pieces]
   \<and> fst (Individual_init_store ContainsByValue [sample_pieces] 0 2 2 True (Member Similarity) sample_rnd) ! 0
       = sample_pieces
   \<and> fst (Individual_init_store ContainsByValue [sample_pieces] 0 2 2 True (Member Similarity) sample_rnd) ! 1
       = [sample_piece 7, sample_piece 9, sample_piece 5, sample_piece 3]"
proof -
  have l: "(0::nat) < length [sample_pieces]" by simp
  have "fst (Individual_init_store ContainsByValue [sample_pieces] 0 2 2 True (Member Similarity) sample_rnd) ! 1
       = [sample_piece 7, sample_piece 9, sample_piece 5, sample_piece 3]"
    by (simp add: Individual_init_store_def Let_def sample_shuffled)
  then show ?thesis
    using init_leaves_the_callers_list
        [OF l, of ContainsByValue 2 2 True "Member Similarity" sample_rnd] by simp
qed

section \<open>Neighbours in the grid\<close>

text \<open>
  C3. In a well-formed Individual, take the piece at list index \<open>k\<close>, that is at row
  \<open>k div columns\<close> and column \<open>k mod columns\<close> of the row-major grid. \<^verbatim>\<open>edge\<close> with
  orientation "T" returns the id of the piece at index \<open>k - columns\<close>, with "R" the one at
  \<open>k + 1\<close>, with "D" the one at \<open>k + columns\<close>, with "L" the one at \<open>k - 1\<close>; it returns
  \<^verbatim>\<open>None\<close> exactly when the piece is in the first row (for "T"), the last column (for
  "R"), the last row (for "D") or the first column (for "L").
\<close>

theorem edge_returns_the_grid_neighbour:
  assumes "well_formed ind" and "k < length (pieces ind)"
  shows "edge ind (id_piece (pieces ind ! k)) ''T'' =
           Inr (if k div nat (columns ind) = 0 then None
                else Some (id_piece (pieces ind ! (k - nat (columns ind)))))
       \<and> edge ind (id_piece (pieces ind ! k)) ''R'' =
           Inr (if k mod nat (columns ind) = nat (columns ind) - 1 then None
                else Some (id_piece (pieces ind ! (k + 1))))
       \<and> edge ind (id_piece (pieces ind ! k)) ''D'' =
           Inr (if k div nat (columns ind) = nat (rows ind) - 1 then None
                else Some (id_piece (pieces ind ! (k + nat (columns ind)))))
       \<and> edge ind (id_piece (pieces ind ! k)) ''L'' =
           Inr (if k mod nat (columns ind) = 0 then None
                else Some (id_piece (pieces ind ! (k - 1))))"
  using edge_neighbor_aux[OF assms] by blast

theorem edge_returns_the_grid_neighbour_witness:
  "well_formed (sample_individual sample_pieces (Member Similarity))
   \<and> 1 < length (pieces (sample_individual sample_pieces (Member Similarity)))
   \<and> edge (sample_individual sample_pieces (Member Similarity)) 3 ''T'' = Inr None
   \<and> edge (sample_individual sample_pieces (Member Similarity)) 3 ''R'' = Inr None
   \<and> edge (sample_individual sample_pieces (Member Similarity)) 3 ''D'' = Inr (Some 5)
   \<and> edge (sample_individual sample_pieces (Member Similarity)) 3 ''L'' = Inr (Some 7)"
proof -
  let ?ind = "sample_individual sample_pieces (Member Similarity)"
  have wf: "well_formed ?ind" by (rule sample_well_formed)
  have k: "1 < length (pieces ?ind)" by (simp add: sample_sound sample_lengths)
  have ids: "id_piece (sample_pieces ! Suc 0) = 3" "id_piece (sample_pieces ! 0) = 7"
    "id_piece (sample_pieces ! Suc (Suc (Suc 0))) = 5"
    by (simp_all add: sample_pieces_def sample_piece_def)
  show ?thesis
    using edge_returns_the_grid_neighbour[OF wf k] wf k
    by (simp add: ids sample_sound)
qed

section \<open>Fitness types\<close>

lemma cell_id_fitness_type:
  "cell_id (ind\<lparr>fitness_type := t\<rparr>) i j = cell_id ind i j"
  by (simp add: cell_id_def getitem_def)

lemma add_rows_fitness_type:
  "add_rows gd (ind\<lparr>fitness_type := t\<rparr>) prs acc = add_rows gd ind prs acc"
  by (induction gd ind prs acc rule: add_rows.induct)
    (simp_all add: cell_id_fitness_type split: sum.splits)

lemma add_columns_fitness_type:
  "add_columns gd (ind\<lparr>fitness_type := t\<rparr>) prs acc = add_columns gd ind prs acc"
  by (induction gd ind prs acc rule: add_columns.induct)
    (simp_all add: cell_id_fitness_type split: sum.splits)

lemma priv_similarity_fitness_type:
  "priv_similarity gd (ind\<lparr>fitness_type := t\<rparr>) = priv_similarity gd ind"
  by (simp add: priv_similarity_def add_rows_fitness_type add_columns_fitness_type
      cong: sum.case_cong)

lemma priv_semantic_consistency_fitness_type:
  "priv_semantic_consistency asm sem (ind\<lparr>fitness_type := t\<rparr>) =
   priv_semantic_consistency asm sem ind"
  by (simp add: priv_semantic_consistency_def to_image_def)

lemma round_five: "round_double 5 = Finite 5"
proof -
  have "round_double 5 = Finite (of_int (5 * 2 ^ 50) * (1 / 2 ^ 50))"
    by (rule round_double_near[where e = 2]) (simp_all add: powr_neg_numeral)
  then show ?thesis by simp
qed

lemma round_sum_fitness:
  "round_double (5860155244642235 / 2 ^ 43 + 5) = Finite (5904135709753275 / 2 ^ 43)"
proof -
  have "round_double (5860155244642235 / 2 ^ 43 + 5)
          = Finite (of_int 5904135709753275 * (1 / 2 ^ 43))"
    by (rule round_double_near[where e = 9]) (simp_all add: powr_neg_numeral)
  then show ?thesis by simp
qed

lemma round_start_again:
  "round_double (4611686018427388 / 2 ^ 62) = Finite (4611686018427388 / 2 ^ 62)"
proof -
  have "round_double (4611686018427388 / 2 ^ 62)
          = Finite (of_int 4611686018427388 * (1 / 2 ^ 62))"
    by (rule round_double_near[where e = "- 10"]) (simp_all add: powr_neg_numeral)
  then show ?thesis by simp
qed

lemma round_inverse_start:
  "round_double (1000 / (4611686018427388 / 2 ^ 62)) = Finite 1000000"
proof -
  have "round_double (1000 / (4611686018427388 / 2 ^ 62))
          = Finite (of_int (1000000 * 2 ^ 33) * (1 / 2 ^ 33))"
    by (rule round_double_near[where e = 19]) (simp_all add: powr_neg_numeral)
  then show ?thesis by simp
qed

lemma pair_semantic:
  "priv_semantic_consistency sample_asm sample_sem (pair_individual pair_ascending ft) = Finite 5"
  by (simp add: priv_semantic_consistency_def to_image_def pair_sound sample_lengths round_five)

lemma pair_retyped:
  "(pair_individual ps ft)\<lparr>fitness_type := ft'\<rparr> = pair_individual ps ft'"
  by (simp add: pair_individual_def)

lemma pair_semantic_fitness:
  "fitness sample_gd sample_asm sample_sem (pair_individual pair_ascending (Member Semantic))
     = Inr (Finite 5, (pair_individual pair_ascending (Member Semantic))\<lparr>priv_fitness := Some (Finite 5)\<rparr>)"
  by (simp add: fitness_def compute_fitness_def pair_sound pair_semantic)

text \<open>
  C4. Take one arrangement whose fitness has not been computed yet. If its fitness under
  fitness type Similarity is \<open>s\<close> and its fitness under fitness type Semantic is \<open>m\<close>,
  each computed on its own, then its fitness under fitness type Sum is exactly \<open>s + m\<close>,
  the sum of the two floats.
\<close>

theorem sum_fitness_adds_similarity_and_semantic:
  assumes "priv_fitness ind = None"
    and "fitness gd asm sem (ind\<lparr>fitness_type := Member Similarity\<rparr>) = Inr (s, ind_s)"
    and "fitness gd asm sem (ind\<lparr>fitness_type := Member Semantic\<rparr>) = Inr (m, ind_m)"
  shows "fitness gd asm sem (ind\<lparr>fitness_type := Member Sum\<rparr>) =
           Inr (fadd s m, ind\<lparr>fitness_type := Member Sum, priv_fitness := Some (fadd s m)\<rparr>)"
proof -
  have s: "priv_similarity gd ind = Inr s"
    using assms(1,2)
    by (simp add: fitness_def compute_fitness_def priv_similarity_fitness_type
        split: sum.splits)
  have m: "priv_semantic_consistency asm sem ind = m"
    using assms(1,3)
    by (simp add: fitness_def compute_fitness_def priv_semantic_consistency_fitness_type)
  show ?thesis
    using assms(1) s m
    by (simp add: fitness_def compute_fitness_def priv_similarity_fitness_type
        priv_semantic_consistency_fitness_type)
qed

theorem sum_fitness_adds_similarity_and_semantic_witness:
  "priv_fitness (pair_individual pair_ascending (Member Sum)) = None
   \<and> fitness sample_gd sample_asm sample_sem (pair_individual pair_ascending (Member Similarity))
       = Inr (Finite (5860155244642235 / 2 ^ 43),
              (pair_individual pair_ascending (Member Similarity))
                \<lparr>priv_fitness := Some (Finite (5860155244642235 / 2 ^ 43))\<rparr>)
   \<and> fitness sample_gd sample_asm sample_sem (pair_individual pair_ascending (Member Semantic))
       = Inr (Finite 5, (pair_individual pair_ascending (Member Semantic))\<lparr>priv_fitness := Some (Finite 5)\<rparr>)
   \<and> fitness sample_gd sample_asm sample_sem (pair_individual pair_ascending (Member Sum))
       = Inr (Finite (5904135709753275 / 2 ^ 43),
              (pair_individual pair_ascending (Member Sum))
                \<lparr>priv_fitness := Some (Finite (5904135709753275 / 2 ^ 43))\<rparr>)"
proof -
  let ?ind = "pair_individual pair_ascending (Member Sum)"
  have n: "priv_fitness ?ind = None" by (simp add: pair_sound)
  have s: "fitness sample_gd sample_asm sample_sem (?ind\<lparr>fitness_type := Member Similarity\<rparr>)
      = Inr (Finite (5860155244642235 / 2 ^ 43),
             (pair_individual pair_ascending (Member Similarity))
               \<lparr>priv_fitness := Some (Finite (5860155244642235 / 2 ^ 43))\<rparr>)"
    by (simp only: pair_retyped pair_fitness)
  have m: "fitness sample_gd sample_asm sample_sem (?ind\<lparr>fitness_type := Member Semantic\<rparr>)
      = Inr (Finite 5, (pair_individual pair_ascending (Member Semantic))\<lparr>priv_fitness := Some (Finite 5)\<rparr>)"
    by (simp only: pair_retyped pair_semantic_fitness)
  have a: "fadd (Finite (5860155244642235 / 2 ^ 43)) (Finite 5) = Finite (5904135709753275 / 2 ^ 43)"
    by (simp only: fadd.simps round_sum_fitness)
  show ?thesis
    using sum_fitness_adds_similarity_and_semantic[OF n s m] n pair_fitness(1) pair_semantic_fitness
    by (simp only: a pair_retyped simp_thms)
qed

text \<open>
  C8. The fitness of an Individual of fitness type Semantic, on first access, is the
  score that the semantic scorer gives to the image assembled from the pieces in their
  current order, for the grid shape \<open>(rows, columns)\<close> of the Individual, times 10.
\<close>

theorem semantic_fitness_is_scaled_score:
  assumes "fitness_type ind = Member Semantic" and "priv_fitness ind = None"
  shows "fitness gd asm sem ind =
           Inr (fmul (sem (asm (map image_piece (pieces ind)) (rows ind) (columns ind))
                          (rows ind, columns ind)) (Finite 10),
                ind\<lparr>priv_fitness :=
                  Some (fmul (sem (asm (map image_piece (pieces ind)) (rows ind) (columns ind))
                                  (rows ind, columns ind)) (Finite 10))\<rparr>)"
  using assms
  by (simp add: fitness_def compute_fitness_def priv_semantic_consistency_def to_image_def)

theorem semantic_fitness_is_scaled_score_witness:
  "fitness_type (pair_individual pair_ascending (Member Semantic)) = Member Semantic
   \<and> priv_fitness (pair_individual pair_ascending (Member Semantic)) = None
   \<and> sample_sem (sample_asm (map image_piece pair_ascending) 1 2) (1, 2) = Finite (1 / 2)
   \<and> fitness sample_gd sample_asm sample_sem (pair_individual pair_ascending (Member Semantic))
       = Inr (Finite 5, (pair_individual pair_ascending (Member Semantic))\<lparr>priv_fitness := Some (Finite 5)\<rparr>)"
proof -
  let ?ind = "pair_individual pair_ascending (Member Semantic)"
  have t: "fitness_type ?ind = Member Semantic" and n: "priv_fitness ?ind = None"
    by (simp_all add: pair_sound)
  show ?thesis
    using semantic_fitness_is_scaled_score[OF t n, of sample_gd sample_asm sample_sem] t n
    by (simp add: pair_sound sample_lengths round_five)
qed

text \<open>
  C5. A newly constructed Individual has no stored fitness. The first access of the
  \<^verbatim>\<open>fitness\<close> property that returns computes the value once and stores it; from then on
  every access returns the stored value and leaves the Individual as it is, whatever the
  dissimilarity measure, the assembler and the scorer would compute now. No other method
  writes the stored value: a different value is obtained only from a new Individual.
\<close>

theorem fitness_is_computed_once_and_stored:
  assumes "Individual_init py ps r c shuffle ft rnd = Inr ind0"
    and "fitness gd asm sem ind0 = Inr (v, ind1)"
  shows "priv_fitness ind0 = None
         \<and> compute_fitness gd asm sem ind0 = Inr v
         \<and> ind1 = ind0\<lparr>priv_fitness := Some v\<rparr>
         \<and> (\<forall>gd' asm' sem'. fitness gd' asm' sem' ind1 = Inr (v, ind1))"
proof -
  have n: "priv_fitness ind0 = None"
    by (rule Individual_init_fresh(1)[OF assms(1)])
  have c: "compute_fitness gd asm sem ind0 = Inr v" and i: "ind1 = ind0\<lparr>priv_fitness := Some v\<rparr>"
    using assms(2) by (auto simp: fitness_fresh[OF n] split: sum.splits)
  have st: "priv_fitness ind1 = Some v" using i by simp
  show ?thesis
    by (intro conjI allI) (rule n c i fitness_stored[OF st])+
qed

theorem fitness_is_computed_once_and_stored_witness:
  "Individual_init ContainsByValue pair_ascending 1 2 False (Member Similarity) sample_rnd
     = Inr (pair_individual pair_ascending (Member Similarity))
   \<and> fitness sample_gd sample_asm sample_sem (pair_individual pair_ascending (Member Similarity))
       = Inr (Finite (5860155244642235 / 2 ^ 43),
              (pair_individual pair_ascending (Member Similarity))
                \<lparr>priv_fitness := Some (Finite (5860155244642235 / 2 ^ 43))\<rparr>)
   \<and> compute_fitness zero_gd sample_asm sample_sem (pair_individual pair_ascending (Member Similarity))
       = Inr (Finite 1000000)
   \<and> fitness zero_gd sample_asm sample_sem
         ((pair_individual pair_ascending (Member Similarity))
            \<lparr>priv_fitness := Some (Finite (5860155244642235 / 2 ^ 43))\<rparr>)
       = Inr (Finite (5860155244642235 / 2 ^ 43),
              (pair_individual pair_ascending (Member Similarity))
                \<lparr>priv_fitness := Some (Finite (5860155244642235 / 2 ^ 43))\<rparr>)"
proof -
  let ?ind = "pair_individual pair_ascending (Member Similarity)"
  have i: "Individual_init ContainsByValue pair_ascending 1 2 False (Member Similarity) sample_rnd
             = Inr ?ind"
    by (rule pair_init)
  note f = pair_fitness(1)
  have len: "int (length (pieces ?ind)) = rows ?ind * columns ?ind"
    by (simp add: pair_sound sample_lengths)
  have h: "horizontal_dissimilarities zero_gd ?ind = [Finite 0]"
    by (simp add: horizontal_dissimilarities_def pair_sound)
  have acc: "accumulated_dissimilarity zero_gd ?ind = Finite (4611686018427388 / 2 ^ 62)"
    by (simp only: accumulated_dissimilarity_def h pair_dissimilarities(3) round_start
        foldl.simps fadd.simps add_0_right round_start_again)
  have q: "fdiv FITNESS_FACTOR (Finite (4611686018427388 / 2 ^ 62))
             = Inr (round_double (1000 / (4611686018427388 / 2 ^ 62)))"
    by (simp add: FITNESS_FACTOR_def)
  have "priv_similarity zero_gd ?ind = Inr (Finite 1000000)"
    by (simp only: priv_similarity_accumulates[OF len] acc q round_inverse_start)
  then have z: "compute_fitness zero_gd sample_asm sample_sem ?ind = Inr (Finite 1000000)"
    by (simp add: compute_fitness_def pair_sound)
  show ?thesis
    using fitness_is_computed_once_and_stored[OF i f] i f z by blast
qed

section \<open>Rejected configurations\<close>




text \<open>
  C7, as the code has it. The constructor of Individual does not compare the number of
  pieces with \<open>rows * columns\<close>: for every piece sequence, every \<open>rows\<close> and \<open>columns\<close>
  and each of the three fitness types it returns an Individual that holds the pieces
  (shuffled when asked), \<open>rows\<close> and \<open>columns\<close> as given.
\<close>

theorem init_accepts_any_piece_count:
  "Individual_init py ps r c shuffle (Member t) rnd =
     Inr \<lparr>pieces = (if shuffle then np_random_shuffle rnd ps else ps), rows = r, columns = c,
          priv_fitness = None, fitness_type = Member t,
          priv_piece_mapping =
            build_piece_mapping (if shuffle then np_random_shuffle rnd ps else ps)\<rparr>"
  by (simp add: Individual_init_member)

theorem init_accepts_any_piece_count_witness:
  "Individual_init ContainsByValue sample_pieces 3 5 False (Member Sum) sample_rnd =
     Inr \<lparr>pieces = sample_pieces, rows = 3, columns = 5, priv_fitness = None,
          fitness_type = Member Sum, priv_piece_mapping = build_piece_mapping sample_pieces\<rparr>"
  using init_accepts_any_piece_count[of ContainsByValue sample_pieces 3 5 False Sum sample_rnd]
  by simp

text \<open>
  C7, as stated, fails: three pieces for a grid of two rows and two columns are accepted.
\<close>

theorem init_accepts_three_pieces_for_two_by_two:
  "Individual_init ContainsByValue three_pieces 2 2 False (Member Similarity) sample_rnd =
     Inr \<lparr>pieces = three_pieces, rows = 2, columns = 2, priv_fitness = None,
          fitness_type = Member Similarity,
          priv_piece_mapping = build_piece_mapping three_pieces\<rparr>
   \<and> int (length three_pieces) \<noteq> 2 * 2"
  by (simp add: Individual_init_member three_pieces_def)

end
